theory Spec2Isabelle
  imports Complex_Main
begin

section \<open>Patch hierarchy of the mesh-refinement notebook (05-hpc.ipynb)\<close>

text \<open>
  The embedding follows the classes \<open>problem\<close>, \<open>patch\<close> and \<open>mr_simulation\<close>.
  Python floats are modelled as the reals: the arithmetic on the field values is exact
  (rounding is not part of the model), and the one float addition that decides control
  flow, the loop time of \<open>evolve\<close>, is a parameter. Python ints are \<open>int\<close>. Every exception the code can raise is a value of \<open>error\<close>; a
  function that raises returns \<open>Inl\<close> of it and the state it had reached is dropped.
\<close>

datatype error =
  NotImplementedError | IndexError | ValueError | TypeError | AttributeError | ZeroDivisionError

definition bindE :: "error + 'a \<Rightarrow> ('a \<Rightarrow> error + 'b) \<Rightarrow> error + 'b" where
  "bindE m f = (case m of Inl e \<Rightarrow> Inl e | Inr x \<Rightarrow> f x)"

text \<open>A \<open>for\<close> loop whose body may raise: the first exception ends the loop.\<close>

fun foldE :: "('a \<Rightarrow> 's \<Rightarrow> error + 's) \<Rightarrow> 'a list \<Rightarrow> 's \<Rightarrow> error + 's" where
  "foldE f [] s = Inr s"
| "foldE f (x # xs) s = bindE (f x s) (foldE f xs)"

subsection \<open>Two-dimensional arrays\<close>

text \<open>
  A numpy array of shape \<open>(shape0, shape1)\<close> is kept as the list of its \<open>shape1\<close>
  columns \<open>a[:, 0], a[:, 1], ...\<close>; a column is the vector of the \<open>shape0\<close> field
  values of one cell. All array accesses of the code are by column.
\<close>

type_synonym vec = "real list"

record ndarray =
  shape0 :: nat
  cols :: "vec list"

definition shape1 :: "ndarray \<Rightarrow> nat" where
  "shape1 a = length (cols a)"

definition has_shape :: "ndarray \<Rightarrow> int \<Rightarrow> int \<Rightarrow> bool" where
  "has_shape a n w \<longleftrightarrow>
     int (shape0 a) = n \<and> int (shape1 a) = w \<and> list_all (\<lambda>c. length c = shape0 a) (cols a)"

text \<open>\<open>np.zeros((n, w))\<close>: a negative dimension raises ValueError.\<close>

definition zeros :: "int \<Rightarrow> int \<Rightarrow> error + ndarray" where
  "zeros n w =
     (if n < 0 \<or> w < 0 then Inl ValueError
      else Inr \<lparr>shape0 = nat n, cols = replicate (nat w) (replicate (nat n) 0)\<rparr>)"

text \<open>An integer index into an axis of length \<open>n\<close>: negative indices count from the end.\<close>

definition py_index :: "nat \<Rightarrow> int \<Rightarrow> error + nat" where
  "py_index n k =
     (if 0 \<le> k \<and> k < int n then Inr (nat k)
      else if - int n \<le> k \<and> k < 0 then Inr (nat (int n + k))
      else Inl IndexError)"

text \<open>The bounds of a slice \<open>lo:hi\<close> (step 1) are clamped, never out of range.\<close>

definition slice_index :: "nat \<Rightarrow> int \<Rightarrow> nat" where
  "slice_index n k = (if k < 0 then nat (max 0 (int n + k)) else min n (nat k))"

definition slice_lo :: "nat \<Rightarrow> int option \<Rightarrow> nat" where
  "slice_lo n lo = (case lo of None \<Rightarrow> 0 | Some k \<Rightarrow> slice_index n k)"

definition slice_hi :: "nat \<Rightarrow> int option \<Rightarrow> nat" where
  "slice_hi n hi = (case hi of None \<Rightarrow> n | Some k \<Rightarrow> slice_index n k)"

text \<open>\<open>a[:, k]\<close>\<close>

definition getcol :: "ndarray \<Rightarrow> int \<Rightarrow> error + vec" where
  "getcol a k = bindE (py_index (shape1 a) k) (\<lambda>j. Inr (cols a ! j))"

text \<open>\<open>a[:, k] = v\<close>: a vector of length 1 is broadcast over the fields.\<close>

definition setcol :: "ndarray \<Rightarrow> int \<Rightarrow> vec \<Rightarrow> error + ndarray" where
  "setcol a k v =
     bindE (py_index (shape1 a) k) (\<lambda>j.
       if length v = shape0 a then Inr (a\<lparr>cols := (cols a)[j := v]\<rparr>)
       else if length v = 1 then Inr (a\<lparr>cols := (cols a)[j := replicate (shape0 a) (hd v)]\<rparr>)
       else Inl ValueError)"

text \<open>\<open>a[:, lo:hi]\<close> (a copy of the columns)\<close>

definition getslice :: "ndarray \<Rightarrow> int option \<Rightarrow> int option \<Rightarrow> vec list" where
  "getslice a lo hi =
     (let i = slice_lo (shape1 a) lo; j = slice_hi (shape1 a) hi
      in take (j - i) (drop i (cols a)))"

text \<open>
  \<open>a[:, lo:hi] = b\<close> for columns \<open>b\<close> of the same field count: the widths must agree,
  or \<open>b\<close> is one column that is broadcast; anything else raises ValueError.
\<close>

definition setslice :: "ndarray \<Rightarrow> int option \<Rightarrow> int option \<Rightarrow> vec list \<Rightarrow> error + ndarray" where
  "setslice a lo hi b =
     (let i = slice_lo (shape1 a) lo; j = slice_hi (shape1 a) hi; t = j - i
      in if length b = t then Inr (a\<lparr>cols := take i (cols a) @ b @ drop (i + t) (cols a)\<rparr>)
         else if length b = 1
           then Inr (a\<lparr>cols := take i (cols a) @ replicate t (hd b) @ drop (i + t) (cols a)\<rparr>)
         else Inl ValueError)"

definition vadd :: "vec \<Rightarrow> vec \<Rightarrow> vec" where
  "vadd u v = map2 (+) u v"

definition smul :: "real \<Rightarrow> vec \<Rightarrow> vec" where
  "smul c v = map ((*) c) v"

text \<open>Entry \<open>(i, j)\<close> of \<open>b\<close> when \<open>b\<close> is broadcast: an axis of length 1 is repeated.\<close>

definition bget :: "ndarray \<Rightarrow> nat \<Rightarrow> nat \<Rightarrow> real" where
  "bget b i j =
     cols b ! (if shape1 b = 1 then 0 else j) ! (if shape0 b = 1 then 0 else i)"

text \<open>\<open>a += c * b\<close> in place: \<open>b\<close> must broadcast to the shape of \<open>a\<close>.\<close>

definition iadd_scaled :: "ndarray \<Rightarrow> real \<Rightarrow> ndarray \<Rightarrow> error + ndarray" where
  "iadd_scaled a c b =
     (if (shape0 b = shape0 a \<or> shape0 b = 1) \<and> (shape1 b = shape1 a \<or> shape1 b = 1)
      then Inr (a\<lparr>cols := map (\<lambda>j. map (\<lambda>i. cols a ! j ! i + c * bget b i j) [0..<shape0 a])
                             [0..<shape1 a]\<rparr>)
      else Inl ValueError)"

subsection \<open>The classes \<open>problem\<close> and \<open>patch\<close>\<close>

text \<open>
  \<open>rhs\<close> is the caller's right-hand side: a pure function of the buffer and the
  spacing that returns the derivative buffer or raises. The attribute \<open>bcs\<close> of a
  patch holds the bound method chosen by the constructor; \<open>bcs_periodic\<close> is the only
  one it ever stores. Patch objects live in a store, a list indexed by object identity;
  \<open>parent\<close> is \<open>None\<close> or the identity of another patch. A method of \<open>patch\<close> takes
  the store and the identity \<open>self\<close> of its patch and returns the new store.
\<close>

record problem =
  nv :: int
  names :: "string list"
  rhs :: "ndarray \<Rightarrow> real \<Rightarrow> error + ndarray"

datatype bc_method = BcsPeriodic

record patch =
  problem :: problem
  nx :: int
  ngz :: int
  bcs :: bc_method
  x0 :: real
  dx :: real
  parent :: "nat option"
  parent_i_start :: "int option"
  data :: ndarray

type_synonym store = "patch list"

definition patch_init ::
  "problem \<Rightarrow> int \<Rightarrow> int \<Rightarrow> real \<Rightarrow> real \<Rightarrow> string \<Rightarrow> nat option \<Rightarrow> int option \<Rightarrow> error + patch" where
  "patch_init pr a_nx a_ngz a_x0 a_dx a_bcs a_parent a_start =
     (if a_bcs = ''Periodic''
      then bindE (zeros (nv pr) (a_nx + 2 * a_ngz)) (\<lambda>d.
             Inr \<lparr>problem = pr, nx = a_nx, ngz = a_ngz, bcs = BcsPeriodic, x0 = a_x0, dx = a_dx,
                  parent = a_parent, parent_i_start = a_start, data = d\<rparr>)
      else Inl NotImplementedError)"

definition set_data :: "store \<Rightarrow> nat \<Rightarrow> ndarray \<Rightarrow> store" where
  "set_data s self d = s[self := (s ! self)\<lparr>data := d\<rparr>]"

text \<open>\<open>self.parent.data\<close>: fails when \<open>parent\<close> is \<open>None\<close> (or no patch at all).\<close>

definition parent_data :: "store \<Rightarrow> nat \<Rightarrow> error + ndarray" where
  "parent_data s self =
     (case parent (s ! self) of
        None \<Rightarrow> Inl AttributeError
      | Some q \<Rightarrow> if q < length s then Inr (data (s ! q)) else Inl AttributeError)"

text \<open>
  The two slice assignments of \<open>bcs_periodic\<close>; each right-hand side is read before
  its assignment, and the second reads the buffer the first has written.
\<close>

definition bcs_periodic :: "store \<Rightarrow> nat \<Rightarrow> error + store" where
  "bcs_periodic s self =
     (let g = ngz (s ! self); d = data (s ! self)
      in bindE (setslice d None (Some g) (getslice d (Some (- 2 * g)) (Some (- g)))) (\<lambda>d1.
         bindE (setslice d1 (Some (- g)) None (getslice d1 (Some g) (Some (2 * g)))) (\<lambda>d2.
         Inr (set_data s self d2))))"

text \<open>
  One assignment \<open>self.data[:, k] = 0.25*(wa*parent.data[:, ka] + wb*parent.data[:, kb])\<close>
  of \<open>bcs_mr\<close>; the weight that the source leaves out is 1.
\<close>

definition mr_assign :: "nat \<Rightarrow> int \<Rightarrow> real \<Rightarrow> int \<Rightarrow> real \<Rightarrow> int \<Rightarrow> store \<Rightarrow> error + store" where
  "mr_assign self k wa ka wb kb s =
     bindE (parent_data s self) (\<lambda>pd.
     bindE (getcol pd ka) (\<lambda>a.
     bindE (parent_data s self) (\<lambda>pd'.
     bindE (getcol pd' kb) (\<lambda>b.
     bindE (setcol (data (s ! self)) k (smul 0.25 (vadd (smul wa a) (smul wb b)))) (\<lambda>d.
     Inr (set_data s self d))))))"

text \<open>
  The body of the loop of \<open>bcs_mr\<close>, in the order of the source: the two left ghost
  cells \<open>2*i\<close> and \<open>2*i+1\<close>, then the two right ghost cells \<open>-2*i-1\<close> and
  \<open>-2*i-2\<close>.
\<close>

definition bcs_mr_body :: "nat \<Rightarrow> int \<Rightarrow> int \<Rightarrow> int \<Rightarrow> store \<Rightarrow> error + store" where
  "bcs_mr_body self i_s i_e i s =
     bindE (mr_assign self (2 * i) 1 (i_s - 2) 3 (i_s - 1) s) (\<lambda>s1.
     bindE (mr_assign self (2 * i + 1) 3 (i_s - 1) 1 i_s s1) (\<lambda>s2.
     bindE (mr_assign self (- 2 * i - 1) 3 (i_e + 1) 1 (i_e + 2) s2) (\<lambda>s3.
     mr_assign self (- 2 * i - 2) 1 i_e 3 (i_e + 1) s3)))"

text \<open>
  \<open>i_e = self.parent_i_start + self.ngz//2\<close> raises TypeError when \<open>parent_i_start\<close>
  is \<open>None\<close>; the loop runs \<open>ngz // 2\<close> times.
\<close>

definition bcs_mr :: "store \<Rightarrow> nat \<Rightarrow> error + store" where
  "bcs_mr s self =
     (case parent_i_start (s ! self) of
        None \<Rightarrow> Inl TypeError
      | Some i_s \<Rightarrow>
          (let i_e = i_s + ngz (s ! self) div 2
           in foldE (bcs_mr_body self i_s i_e) (map int [0..<nat (ngz (s ! self) div 2)]) s))"

text \<open>
  The body of the loop of \<open>restrict_interior\<close> for the parent \<open>q\<close>: the right-hand
  side (two columns of this patch) is evaluated first, then the target
  \<open>self.parent.data[:, self.parent_i_start+i]\<close>.
\<close>

definition restrict_body :: "nat \<Rightarrow> nat \<Rightarrow> int \<Rightarrow> store \<Rightarrow> error + store" where
  "restrict_body self q i s =
     (let g = ngz (s ! self); d = data (s ! self)
      in bindE (getcol d (2 * i + g)) (\<lambda>a.
         bindE (getcol d (2 * i + 1 + g)) (\<lambda>b.
         if q < length s then
           (case parent_i_start (s ! self) of
              None \<Rightarrow> Inl TypeError
            | Some st \<Rightarrow>
                bindE (setcol (data (s ! q)) (st + i) (smul 0.5 (vadd a b))) (\<lambda>pd.
                Inr (set_data s q pd)))
         else Inl AttributeError)))"

definition restrict_interior :: "store \<Rightarrow> nat \<Rightarrow> error + store" where
  "restrict_interior s self =
     (case parent (s ! self) of
        None \<Rightarrow> Inr s
      | Some q \<Rightarrow> foldE (restrict_body self q) (map int [0..<nat (nx (s ! self) div 2)]) s)"

text \<open>\<open>self.data += dt * self.problem.rhs(self.data, self.dx)\<close>\<close>

definition euler_update :: "store \<Rightarrow> nat \<Rightarrow> real \<Rightarrow> error + store" where
  "euler_update s self dt =
     (let p = s ! self
      in bindE (rhs (problem p) (data p) (dx p)) (\<lambda>r.
         bindE (iadd_scaled (data p) dt r) (\<lambda>d.
         Inr (set_data s self d))))"

text \<open>\<open>self.bcs()\<close>, then the step itself; the fill is chosen by \<open>self.parent is None\<close>.\<close>

definition call_bcs :: "bc_method \<Rightarrow> store \<Rightarrow> nat \<Rightarrow> error + store" where
  "call_bcs m s self = (case m of BcsPeriodic \<Rightarrow> bcs_periodic s self)"

definition euler_step :: "store \<Rightarrow> nat \<Rightarrow> real \<Rightarrow> error + store" where
  "euler_step s self dt =
     bindE (euler_update s self dt) (\<lambda>s1.
       if parent (s1 ! self) = None then call_bcs (bcs (s1 ! self)) s1 self
       else bcs_mr s1 self)"

subsection \<open>The class \<open>mr_simulation\<close>\<close>

text \<open>
  A simulation holds the patch objects it has constructed (\<open>patches\<close>, its store) and
  \<open>levels\<close>, the lists of their identities, coarsest level first.
\<close>

record mr_simulation =
  mr_problem :: problem
  levels :: "nat list list"
  patches :: store

text \<open>
  The inner loop of the constructor, for cell \<open>(j, xc)\<close> of \<open>enumerate(x_centres)\<close>:
  \<open>prev\<close> is \<open>levels[i-1]\<close>, and \<open>levels[i-1][j]\<close> raises IndexError past its end.
\<close>

definition build_patch ::
  "problem \<Rightarrow> int \<Rightarrow> real \<Rightarrow> nat list \<Rightarrow> nat \<times> real \<Rightarrow> store \<times> nat list \<Rightarrow> error + store \<times> nat list" where
  "build_patch pr child_nx a_dx prev jx st =
     (case jx of (j, xc) \<Rightarrow> case st of (s, level) \<Rightarrow>
        if j < length prev
        then bindE (patch_init pr child_nx 1 (xc - 0.5 * real_of_int child_nx * a_dx) a_dx
                      ''Periodic'' (Some (prev ! j)) (Some (child_nx div 4 + 1))) (\<lambda>p.
               Inr (s @ [p], level @ [length s]))
        else Inl IndexError)"

text \<open>
  The body of the outer loop for level \<open>i\<close>, with \<open>dx = base_dx / (2**i)\<close>, and the
  constructor: the base patch, then the levels \<open>range(1, nlevels)\<close>.
\<close>

definition build_level ::
  "problem \<Rightarrow> real \<Rightarrow> real list \<Rightarrow> int \<Rightarrow> nat \<Rightarrow> store \<times> nat list list \<Rightarrow> error + store \<times> nat list list" where
  "build_level pr base_dx x_centres child_nx i st =
     (case st of (s, lvs) \<Rightarrow>
        bindE (foldE (build_patch pr child_nx (base_dx / 2 ^ i) (lvs ! (i - 1)))
                 (enumerate 0 x_centres) (s, [])) (\<lambda>r.
          case r of (s', level) \<Rightarrow> Inr (s', lvs @ [level])))"

definition mr_init ::
  "problem \<Rightarrow> real \<Rightarrow> int \<Rightarrow> int \<Rightarrow> real list \<Rightarrow> int \<Rightarrow> error + mr_simulation" where
  "mr_init pr base_dx base_nx nlevels x_centres child_nx =
     bindE (patch_init pr base_nx 1 0 base_dx ''Periodic'' None None) (\<lambda>p_base.
     bindE (foldE (build_level pr base_dx x_centres child_nx) [1..<nat nlevels] ([p_base], [[0]]))
       (\<lambda>r. case r of (s, lvs) \<Rightarrow> Inr \<lparr>mr_problem = pr, levels = lvs, patches = s\<rparr>))"

text \<open>The two passes of one iteration of \<open>evolve\<close>.\<close>

definition step_levels :: "real \<Rightarrow> nat list list \<Rightarrow> store \<Rightarrow> error + store" where
  "step_levels dt lvs s = foldE (\<lambda>level. foldE (\<lambda>p s'. euler_step s' p dt) level) lvs s"

definition restrict_levels :: "nat list list \<Rightarrow> store \<Rightarrow> error + store" where
  "restrict_levels lvs s = foldE (\<lambda>level. foldE (\<lambda>p s'. restrict_interior s' p) level) (rev lvs) s"

text \<open>
  The \<open>while t < t_end\<close> loop. The loop time is a binary float and \<open>t += dt\<close>
  rounds, so the model takes that float addition as the parameter \<open>fadd\<close> and assumes
  nothing about it. The loop need not end (a step \<open>dt \<le> 0\<close>, or one that rounding
  absorbs, never reaches \<open>t_end\<close>), so not returning is the value \<open>None\<close>.
\<close>

partial_function (option) evolve_loop ::
  "(real \<Rightarrow> real \<Rightarrow> real) \<Rightarrow> nat list list \<Rightarrow> real \<Rightarrow> real \<Rightarrow> real \<Rightarrow> store \<Rightarrow>
     (error + store) option" where
  "evolve_loop fadd lvs dt t_end t s =
     (if t < t_end
      then (case bindE (step_levels dt lvs s) (restrict_levels lvs) of
              Inl e \<Rightarrow> Some (Inl e)
            | Inr s' \<Rightarrow> evolve_loop fadd lvs dt t_end (fadd t dt) s')
      else Some (Inr s))"

text \<open>
  \<open>self.levels[-1][0]\<close> raises IndexError on an empty list. The product
  \<open>0.5 * dx\<close> is exact in binary floats (but for underflow).
\<close>

definition evolve ::
  "(real \<Rightarrow> real \<Rightarrow> real) \<Rightarrow> mr_simulation \<Rightarrow> real \<Rightarrow> (error + mr_simulation) option" where
  "evolve fadd sim t_end =
     (if levels sim = [] \<or> last (levels sim) = [] then Some (Inl IndexError)
      else
        (let dt = 0.5 * dx (patches sim ! hd (last (levels sim)))
         in map_option (map_sum id (\<lambda>s. sim\<lparr>patches := s\<rparr>))
              (evolve_loop fadd (levels sim) dt t_end 0 (patches sim))))"

text \<open>The loop time after \<open>k\<close> further iterations that start at time \<open>t\<close>.\<close>

fun loop_time :: "(real \<Rightarrow> real \<Rightarrow> real) \<Rightarrow> real \<Rightarrow> real \<Rightarrow> nat \<Rightarrow> real" where
  "loop_time fadd dt t 0 = t"
| "loop_time fadd dt t (Suc k) = loop_time fadd dt (fadd t dt) k"

text \<open>
  The schedule of one iteration as the specification words it: the explicit step, with
  the one \<open>dt\<close>, on every patch of every level (coarsest level first), and only then
  restriction on every patch, the finest level first and the base level last.
\<close>

definition schedule_pass :: "real \<Rightarrow> nat list list \<Rightarrow> store \<Rightarrow> error + store" where
  "schedule_pass dt lvs s =
     bindE (foldE (\<lambda>p s'. euler_step s' p dt) (concat lvs) s)
       (foldE (\<lambda>p s'. restrict_interior s' p) (concat (rev lvs)))"

text \<open>\<open>n\<close> iterations of a loop body that may raise.\<close>

fun repeatE :: "nat \<Rightarrow> ('s \<Rightarrow> error + 's) \<Rightarrow> 's \<Rightarrow> error + 's" where
  "repeatE 0 f s = Inr s"
| "repeatE (Suc n) f s = bindE (f s) (repeatE n f)"

text \<open>The shape invariant of a patch: its buffer is \<open>(nv, nx + 2 * ngz)\<close>.\<close>

definition patch_ok :: "patch \<Rightarrow> bool" where
  "patch_ok p \<longleftrightarrow> has_shape (data p) (nv (problem p)) (nx p + 2 * ngz p)"

text \<open>
  An operation keeps the shapes when it returns the same patches with at most their
  data replaced, and each new buffer has every shape the old one had.
\<close>

definition keeps_shapes :: "store \<Rightarrow> store \<Rightarrow> bool" where
  "keeps_shapes s s' \<longleftrightarrow>
     length s' = length s \<and>
     (\<forall>k<length s. \<exists>d. s' ! k = (s ! k)\<lparr>data := d\<rparr> \<and>
        (\<forall>n w. has_shape (data (s ! k)) n w \<longrightarrow> has_shape d n w))"

subsection \<open>Invariant of the hierarchies that the constructor builds\<close>

text \<open>
  What the loop of \<open>mr_simulation.__init__\<close> maintains: every patch has one ghost
  cell each side and a buffer of its shape; a patch listed on level \<open>i\<close> exists, has the spacing
  \<open>base_dx / 2 ^ i\<close>, has no parent on level 0 and otherwise a parent listed on level
  \<open>i - 1\<close>, \<open>child_nx\<close> cells and the fixed offset \<open>child_nx // 4 + 1\<close>.
\<close>

definition child_patch :: "int \<Rightarrow> real \<Rightarrow> nat list \<Rightarrow> patch \<Rightarrow> bool" where
  "child_patch child_nx a_dx prev p \<longleftrightarrow>
     ngz p = 1 \<and> dx p = a_dx \<and> nx p = child_nx \<and> (\<exists>q\<in>set prev. parent p = Some q) \<and>
     parent_i_start p = Some (child_nx div 4 + 1) \<and> patch_ok p"

definition hier_inv :: "real \<Rightarrow> int \<Rightarrow> store \<Rightarrow> nat list list \<Rightarrow> bool" where
  "hier_inv base_dx child_nx s lvs \<longleftrightarrow>
     (\<forall>p\<in>set s. ngz p = 1 \<and> patch_ok p) \<and>
     (\<forall>i<length lvs. \<forall>c\<in>set (lvs ! i).
        c < length s \<and> dx (s ! c) = base_dx / 2 ^ i \<and>
        (if i = 0 then parent (s ! c) = None
         else (\<exists>q\<in>set (lvs ! (i - 1)). parent (s ! c) = Some q) \<and>
              nx (s ! c) = child_nx \<and>
              parent_i_start (s ! c) = Some (child_nx div 4 + 1)))"

subsection \<open>The advection problem of the notebook and small test objects\<close>

text \<open>
  \<open>RHS_advection\<close>: centred differences of the flux of field 0 on the cells
  \<open>1 .. width-2\<close>, zero elsewhere. The quotient \<open>-1.0 / (2.0*dx)\<close> of Python floats
  is evaluated first and raises on a zero divisor; \<open>q[0, 2:]\<close> raises IndexError when
  there is no field 0.
\<close>

definition flux_advection :: "real \<Rightarrow> real" where
  "flux_advection q = 1 * q"

definition RHS_advection :: "ndarray \<Rightarrow> real \<Rightarrow> error + ndarray" where
  "RHS_advection q a_dx =
     (if 2 * a_dx = 0 then Inl ZeroDivisionError
      else if shape0 q = 0 then Inl IndexError
      else Inr \<lparr>shape0 = shape0 q,
                cols = map (\<lambda>j. if 1 \<le> j \<and> j + 1 < shape1 q
                                then (- 1 / (2 * a_dx) *
                                       (flux_advection (cols q ! (j + 1) ! 0) -
                                        flux_advection (cols q ! (j - 1) ! 0)))
                                     # replicate (shape0 q - 1) 0
                                else replicate (shape0 q) 0) [0..<shape1 q]\<rparr>)"

definition advection :: problem where
  "advection = \<lparr>nv = 1, names = [''$q$''], rhs = RHS_advection\<rparr>"

text \<open>
  A coarse patch of 8 cells and 2 ghost cells each side holding the linear profile
  \<open>data[0, k] = k\<close>, and a child of 8 cells of half the spacing over the parent's
  buffer cells 4 to 7.
\<close>

definition demo_parent :: patch where
  "demo_parent =
     \<lparr>problem = advection, nx = 8, ngz = 2, bcs = BcsPeriodic, x0 = 0, dx = 1 / 4,
      parent = None, parent_i_start = None,
      data = \<lparr>shape0 = 1,
              cols = [[0], [1], [2], [3], [4], [5], [6], [7], [8], [9], [10], [11]]\<rparr>\<rparr>"

definition demo_child :: patch where
  "demo_child =
     \<lparr>problem = advection, nx = 8, ngz = 2, bcs = BcsPeriodic, x0 = 1 / 2, dx = 1 / 8,
      parent = Some 0, parent_i_start = Some 4,
      data = \<lparr>shape0 = 1,
              cols = [[0], [0], [4], [6], [5], [5], [6], [8], [7], [9], [0], [0]]\<rparr>\<rparr>"

definition demo_store :: store where
  "demo_store = [demo_parent, demo_child]"

text \<open>The same pair with one ghost cell each side, as the driver builds its patches.\<close>

definition demo_parent1 :: patch where
  "demo_parent1 =
     \<lparr>problem = advection, nx = 4, ngz = 1, bcs = BcsPeriodic, x0 = 0, dx = 1 / 4,
      parent = None, parent_i_start = None,
      data = \<lparr>shape0 = 1, cols = [[0], [1], [2], [3], [4], [5]]\<rparr>\<rparr>"

definition demo_child1 :: patch where
  "demo_child1 =
     \<lparr>problem = advection, nx = 4, ngz = 1, bcs = BcsPeriodic, x0 = 1 / 4, dx = 1 / 8,
      parent = Some 0, parent_i_start = Some 2,
      data = \<lparr>shape0 = 1, cols = [[7], [1], [3], [2], [5], [9]]\<rparr>\<rparr>"

definition demo_store1 :: store where
  "demo_store1 = [demo_parent1, demo_child1]"

text \<open>
  The hierarchy that \<open>mr_simulation(advection, 0.25, 8, 2, [1.5], 4)\<close> constructs: the
  base patch over \<open>[0, 2]\<close> and one child of 4 cells centred on 1.5.
\<close>

definition demo_built :: mr_simulation where
  "demo_built =
     \<lparr>mr_problem = advection, levels = [[0], [1]],
      patches =
        [\<lparr>problem = advection, nx = 8, ngz = 1, bcs = BcsPeriodic, x0 = 0, dx = 1 / 4,
          parent = None, parent_i_start = None,
          data = \<lparr>shape0 = 1, cols = replicate 10 [0]\<rparr>\<rparr>,
         \<lparr>problem = advection, nx = 4, ngz = 1, bcs = BcsPeriodic, x0 = 5 / 4, dx = 1 / 8,
          parent = Some 0, parent_i_start = Some 2,
          data = \<lparr>shape0 = 1, cols = replicate 6 [0]\<rparr>\<rparr>]\<rparr>"

text \<open>
  Three nested patches of 4 cells and one ghost cell each side, placed as
  \<open>mr_simulation(advection, 0.25, 4, 3, [0.5], 4)\<close> places them, with data.
\<close>

definition demo3_base :: patch where
  "demo3_base =
     \<lparr>problem = advection, nx = 4, ngz = 1, bcs = BcsPeriodic, x0 = 0, dx = 1 / 4,
      parent = None, parent_i_start = None,
      data = \<lparr>shape0 = 1, cols = [[0], [1], [2], [3], [4], [5]]\<rparr>\<rparr>"

definition demo3_mid :: patch where
  "demo3_mid =
     \<lparr>problem = advection, nx = 4, ngz = 1, bcs = BcsPeriodic, x0 = 1 / 4, dx = 1 / 8,
      parent = Some 0, parent_i_start = Some 2,
      data = \<lparr>shape0 = 1, cols = [[7], [1], [3], [2], [5], [9]]\<rparr>\<rparr>"

definition demo3_fine :: patch where
  "demo3_fine =
     \<lparr>problem = advection, nx = 4, ngz = 1, bcs = BcsPeriodic, x0 = 3 / 8, dx = 1 / 16,
      parent = Some 1, parent_i_start = Some 2,
      data = \<lparr>shape0 = 1, cols = [[1], [2], [4], [8], [16], [3]]\<rparr>\<rparr>"

definition demo_store3 :: store where
  "demo_store3 = [demo3_base, demo3_mid, demo3_fine]"

definition demo_sim3 :: mr_simulation where
  "demo_sim3 = \<lparr>mr_problem = advection, levels = [[0], [1], [2]], patches = demo_store3\<rparr>"

text \<open>
  The hierarchy that \<open>mr_simulation(advection, 0.25, 8, 2, [], 4)\<close> constructs: with no
  refinement centre its level 1 is empty.
\<close>

definition demo_empty :: mr_simulation where
  "demo_empty =
     \<lparr>mr_problem = advection, levels = [[0], []],
      patches =
        [\<lparr>problem = advection, nx = 8, ngz = 1, bcs = BcsPeriodic, x0 = 0, dx = 1 / 4,
          parent = None, parent_i_start = None,
          data = \<lparr>shape0 = 1, cols = replicate 10 [0]\<rparr>\<rparr>]\<rparr>"

text \<open>
  The hierarchy that \<open>mr_simulation(advection, 0.25, 2, 2, [0.25], 8)\<close> constructs: a
  base patch of 2 cells and a child of 8 cells with the offset \<open>8 // 4 + 1 = 3\<close>.
\<close>

definition demo_narrow :: mr_simulation where
  "demo_narrow =
     \<lparr>mr_problem = advection, levels = [[0], [1]],
      patches =
        [\<lparr>problem = advection, nx = 2, ngz = 1, bcs = BcsPeriodic, x0 = 0, dx = 1 / 4,
          parent = None, parent_i_start = None,
          data = \<lparr>shape0 = 1, cols = replicate 4 [0]\<rparr>\<rparr>,
         \<lparr>problem = advection, nx = 8, ngz = 1, bcs = BcsPeriodic, x0 = - (1 / 4), dx = 1 / 8,
          parent = Some 0, parent_i_start = Some 3,
          data = \<lparr>shape0 = 1, cols = replicate 10 [0]\<rparr>\<rparr>]\<rparr>"

section \<open>Basic facts\<close>

lemma bindE_Inl [simp]: "bindE (Inl e) f = Inl e"
  by (simp add: bindE_def)

lemma bindE_Inr [simp]: "bindE (Inr x) f = f x"
  by (simp add: bindE_def)

lemma bindE_eq_Inr: "bindE m f = Inr y \<longleftrightarrow> (\<exists>x. m = Inr x \<and> f x = Inr y)"
  by (cases m) simp_all

lemma bindE_eq_Inl: "bindE m f = Inl e \<longleftrightarrow> m = Inl e \<or> (\<exists>x. m = Inr x \<and> f x = Inl e)"
  by (cases m) auto

lemma foldE_append: "foldE f (xs @ ys) s = bindE (foldE f xs s) (foldE f ys)"
proof (induction xs arbitrary: s)
  case Nil
  show ?case by simp
next
  case (Cons x xs)
  show ?case by (cases "f x s") (simp_all add: Cons.IH)
qed

lemma foldE_raises:
  assumes "foldE f xs s = Inl e"
  shows "\<exists>x s'. f x s' = Inl e"
  using assms
proof (induction xs arbitrary: s)
  case Nil
  then show ?case by simp
next
  case (Cons x xs)
  then show ?case by (cases "f x s") auto
qed

subsection \<open>Which exceptions an operation can raise\<close>

lemma py_index_raises: "py_index n k = Inl e \<Longrightarrow> e = IndexError"
  by (auto simp: py_index_def split: if_splits)

lemma getcol_raises: "getcol a k = Inl e \<Longrightarrow> e = IndexError"
  by (auto simp: getcol_def bindE_eq_Inl dest: py_index_raises)

lemma setcol_raises: "setcol a k v = Inl e \<Longrightarrow> e = IndexError \<or> e = ValueError"
  by (auto simp: setcol_def bindE_eq_Inl dest: py_index_raises split: if_splits)

lemma setslice_raises: "setslice a lo hi b = Inl e \<Longrightarrow> e = ValueError"
  by (auto simp: setslice_def Let_def split: if_splits)

lemma parent_data_raises: "parent_data s self = Inl e \<Longrightarrow> e = AttributeError"
  by (auto simp: parent_data_def split: option.splits if_splits)

lemma iadd_scaled_raises: "iadd_scaled a c b = Inl e \<Longrightarrow> e = ValueError"
  by (auto simp: iadd_scaled_def split: if_splits)

lemma bcs_periodic_raises: "bcs_periodic s self = Inl e \<Longrightarrow> e = ValueError"
  by (auto simp: bcs_periodic_def Let_def bindE_eq_Inl dest: setslice_raises)

lemma mr_assign_raises:
  "mr_assign self k wa ka wb kb s = Inl e \<Longrightarrow> e \<noteq> NotImplementedError"
  by (auto simp: mr_assign_def bindE_eq_Inl
      dest: parent_data_raises getcol_raises setcol_raises)

lemma bcs_mr_body_raises: "bcs_mr_body self i_s i_e i s = Inl e \<Longrightarrow> e \<noteq> NotImplementedError"
  by (auto simp: bcs_mr_body_def bindE_eq_Inl dest: mr_assign_raises)

lemma bcs_mr_raises: "bcs_mr s self = Inl e \<Longrightarrow> e \<noteq> NotImplementedError"
  by (auto simp: bcs_mr_def Let_def split: option.splits
      dest!: foldE_raises bcs_mr_body_raises)

lemma restrict_body_raises: "restrict_body self q i s = Inl e \<Longrightarrow> e \<noteq> NotImplementedError"
  by (auto simp: restrict_body_def Let_def bindE_eq_Inl split: if_splits option.splits
      dest: getcol_raises setcol_raises)

lemma restrict_interior_raises: "restrict_interior s self = Inl e \<Longrightarrow> e \<noteq> NotImplementedError"
  by (auto simp: restrict_interior_def split: option.splits
      dest!: foldE_raises restrict_body_raises)

lemma euler_step_raises:
  assumes "euler_step s self dt = Inl NotImplementedError"
  shows "rhs (problem (s ! self)) (data (s ! self)) (dx (s ! self)) = Inl NotImplementedError"
proof (cases "euler_update s self dt")
  case (Inl e)
  with assms have "e = NotImplementedError" by (simp add: euler_step_def)
  with Inl show ?thesis
    by (auto simp: euler_update_def Let_def bindE_eq_Inl dest: iadd_scaled_raises)
next
  case (Inr s1)
  with assms show ?thesis
    by (auto simp: euler_step_def call_bcs_def split: if_splits bc_method.splits
        dest: bcs_periodic_raises bcs_mr_raises)
qed

subsection \<open>The constructors\<close>

lemma patch_init_Inr:
  assumes "patch_init pr a_nx a_ngz a_x0 a_dx a_bcs a_parent a_start = Inr p"
  shows "a_bcs = ''Periodic''" "problem p = pr" "nx p = a_nx" "ngz p = a_ngz" "x0 p = a_x0"
    "dx p = a_dx" "parent p = a_parent" "parent_i_start p = a_start" "bcs p = BcsPeriodic"
    "has_shape (data p) (nv pr) (a_nx + 2 * a_ngz)"
  using assms
  by (auto simp: patch_init_def zeros_def has_shape_def shape1_def list_all_length
      split: if_splits)

lemma build_patch_Inr:
  assumes "build_patch pr child_nx a_dx prev jx (s, level) = Inr (s', level')"
  shows "\<exists>p. s' = s @ [p] \<and> level' = level @ [length s] \<and> child_patch child_nx a_dx prev p"
proof -
  obtain j xc where jx: "jx = (j, xc)" by (cases jx)
  from assms jx have j: "j < length prev"
    by (auto simp: build_patch_def split: if_splits)
  with assms jx obtain p where
    p: "patch_init pr child_nx 1 (xc - 0.5 * real_of_int child_nx * a_dx) a_dx
          ''Periodic'' (Some (prev ! j)) (Some (child_nx div 4 + 1)) = Inr p"
    and r: "s' = s @ [p]" "level' = level @ [length s]"
    by (auto simp: build_patch_def bindE_eq_Inr)
  from patch_init_Inr [OF p] j have "child_patch child_nx a_dx prev p"
    by (auto simp: child_patch_def patch_ok_def)
  with r show ?thesis by blast
qed

lemma build_patches_Inr:
  assumes "foldE (build_patch pr child_nx a_dx prev) jxs (s, level) = Inr (s', level')"
  shows "\<exists>ps. s' = s @ ps \<and> level' = level @ [length s..<length s + length ps] \<and>
          (\<forall>p\<in>set ps. child_patch child_nx a_dx prev p)"
  using assms
proof (induction jxs arbitrary: s level)
  case Nil
  then show ?case by simp
next
  case (Cons jx jxs)
  from Cons.prems obtain s1 level1 where
    1: "build_patch pr child_nx a_dx prev jx (s, level) = Inr (s1, level1)"
    and 2: "foldE (build_patch pr child_nx a_dx prev) jxs (s1, level1) = Inr (s', level')"
    by (auto simp: bindE_eq_Inr)
  from build_patch_Inr [OF 1] obtain p where
    p: "s1 = s @ [p]" "level1 = level @ [length s]" "child_patch child_nx a_dx prev p"
    by blast
  from Cons.IH [OF 2] obtain ps where
    ps: "s' = s1 @ ps" "level' = level1 @ [length s1..<length s1 + length ps]"
      "\<forall>p\<in>set ps. child_patch child_nx a_dx prev p"
    by blast
  have u: "[length s..<length s + length (p # ps)] =
      length s # [length s1..<length s1 + length ps]"
    using p(1) by (subst upt_conv_Cons) simp_all
  have "s' = s @ (p # ps)" using p ps by simp
  moreover have "level' = level @ [length s..<length s + length (p # ps)]"
    unfolding u using p ps by simp
  moreover have "\<forall>p'\<in>set (p # ps). child_patch child_nx a_dx prev p'"
    using p ps by simp
  ultimately have "s' = s @ (p # ps) \<and> level' = level @ [length s..<length s + length (p # ps)] \<and>
     (\<forall>p'\<in>set (p # ps). child_patch child_nx a_dx prev p')"
    by blast
  then show ?case by blast
qed

lemma build_level_inv:
  assumes inv: "hier_inv base_dx child_nx s lvs" and i: "i = length lvs" "0 < i"
    and b: "build_level pr base_dx x_centres child_nx i (s, lvs) = Inr (s', lvs')"
  shows "hier_inv base_dx child_nx s' lvs' \<and> length lvs' = Suc i"
proof -
  from b obtain level where
    f: "foldE (build_patch pr child_nx (base_dx / 2 ^ i) (lvs ! (i - 1))) (enumerate 0 x_centres) (s, [])
          = Inr (s', level)"
    and l: "lvs' = lvs @ [level]"
    by (auto simp: build_level_def bindE_eq_Inr)
  from build_patches_Inr [OF f] obtain ps where
    ps: "s' = s @ ps" "level = [length s..<length s + length ps]"
      "\<forall>p\<in>set ps. child_patch child_nx (base_dx / 2 ^ i) (lvs ! (i - 1)) p"
    by auto
  have ngz: "\<forall>p\<in>set s'. ngz p = 1 \<and> patch_ok p"
    using inv ps by (auto simp: hier_inv_def child_patch_def)
  have old: "c < length s' \<and> dx (s' ! c) = base_dx / 2 ^ k \<and>
        (if k = 0 then parent (s' ! c) = None
         else (\<exists>q\<in>set (lvs' ! (k - 1)). parent (s' ! c) = Some q) \<and>
              nx (s' ! c) = child_nx \<and>
              parent_i_start (s' ! c) = Some (child_nx div 4 + 1))"
    if "k < length lvs" "c \<in> set (lvs' ! k)" for k c
  proof -
    from that l have c: "c \<in> set (lvs ! k)" by (simp add: nth_append)
    with inv that have "c < length s" by (auto simp: hier_inv_def)
    then have "s' ! c = s ! c" "c < length s'" using ps by (simp_all add: nth_append)
    moreover have "k - 1 < length lvs" using that by arith
    then have "lvs' ! (k - 1) = lvs ! (k - 1)" using l by (simp add: nth_append)
    ultimately show ?thesis using inv that c unfolding hier_inv_def by (auto split: if_splits)
  qed
  have new: "c < length s' \<and> dx (s' ! c) = base_dx / 2 ^ i \<and>
        (\<exists>q\<in>set (lvs' ! (i - 1)). parent (s' ! c) = Some q) \<and>
              nx (s' ! c) = child_nx \<and>
              parent_i_start (s' ! c) = Some (child_nx div 4 + 1)"
    if "c \<in> set level" for c
  proof -
    from that ps(2) have "length s \<le> c" "c < length s + length ps" by simp_all
    then obtain k where k: "c = length s + k" "k < length ps"
      by (auto simp: le_iff_add)
    then have "s' ! c = ps ! k" "c < length s'" using ps by (simp_all add: nth_append)
    moreover have "child_patch child_nx (base_dx / 2 ^ i) (lvs ! (i - 1)) (ps ! k)"
      using ps k by simp
    moreover have "lvs' ! (i - 1) = lvs ! (i - 1)" using i l by (simp add: nth_append)
    ultimately show ?thesis by (simp add: child_patch_def)
  qed
  have all: "\<forall>k<length lvs'. \<forall>c\<in>set (lvs' ! k).
        c < length s' \<and> dx (s' ! c) = base_dx / 2 ^ k \<and>
        (if k = 0 then parent (s' ! c) = None
         else (\<exists>q\<in>set (lvs' ! (k - 1)). parent (s' ! c) = Some q) \<and>
              nx (s' ! c) = child_nx \<and>
              parent_i_start (s' ! c) = Some (child_nx div 4 + 1))"
  proof (intro allI impI ballI)
    fix k c assume k: "k < length lvs'" and c: "c \<in> set (lvs' ! k)"
    show "c < length s' \<and> dx (s' ! c) = base_dx / 2 ^ k \<and>
        (if k = 0 then parent (s' ! c) = None
         else (\<exists>q\<in>set (lvs' ! (k - 1)). parent (s' ! c) = Some q) \<and>
              nx (s' ! c) = child_nx \<and>
              parent_i_start (s' ! c) = Some (child_nx div 4 + 1))"
    proof (cases "k < length lvs")
      case True
      then show ?thesis using old c by blast
    next
      case False
      with k l i have "k = i" "lvs' ! k = level" by (simp_all add: nth_append)
      then show ?thesis using new c i by simp
    qed
  qed
  have "hier_inv base_dx child_nx s' lvs'"
    unfolding hier_inv_def using ngz all by blast
  then show ?thesis using l i by simp
qed

lemma build_levels_inv:
  assumes "foldE (build_level pr base_dx x_centres child_nx) [k..<n] (s, lvs) = Inr (s', lvs')"
    and "hier_inv base_dx child_nx s lvs" and "k = length lvs" and "0 < k"
  shows "hier_inv base_dx child_nx s' lvs' \<and> length lvs' = max k n"
  using assms
proof (induction "n - k" arbitrary: k s lvs)
  case 0
  then show ?case by simp
next
  case (Suc m)
  then have kn: "k < n" by simp
  then have u: "[k..<n] = k # [Suc k..<n]" by (simp add: upt_conv_Cons)
  from Suc.prems(1) u obtain s1 lvs1 where
    1: "build_level pr base_dx x_centres child_nx k (s, lvs) = Inr (s1, lvs1)"
    and 2: "foldE (build_level pr base_dx x_centres child_nx) [Suc k..<n] (s1, lvs1) = Inr (s', lvs')"
    by (auto simp: bindE_eq_Inr)
  from build_level_inv [OF Suc.prems(2) Suc.prems(3) Suc.prems(4) 1]
  have 3: "hier_inv base_dx child_nx s1 lvs1" "length lvs1 = Suc k" by simp_all
  have "m = n - Suc k" using Suc.hyps(2) by simp
  from Suc.hyps(1) [OF this 2 3(1)] 3(2) kn show ?case by (simp add: max_def)
qed

lemma mr_init_inv:
  assumes "mr_init pr base_dx base_nx nlevels x_centres child_nx = Inr sim"
  shows "hier_inv base_dx child_nx (patches sim) (levels sim)"
    and "length (levels sim) = max 1 (nat nlevels)"
proof -
  from assms obtain p_base s lvs where
    p: "patch_init pr base_nx 1 0 base_dx ''Periodic'' None None = Inr p_base"
    and f: "foldE (build_level pr base_dx x_centres child_nx) [1..<nat nlevels] ([p_base], [[0]])
             = Inr (s, lvs)"
    and sim: "sim = \<lparr>mr_problem = pr, levels = lvs, patches = s\<rparr>"
    by (auto simp: mr_init_def bindE_eq_Inr)
  have "hier_inv base_dx child_nx [p_base] [[0]]"
    using patch_init_Inr [OF p] by (simp add: hier_inv_def patch_ok_def)
  from build_levels_inv [OF f this] sim
  show "hier_inv base_dx child_nx (patches sim) (levels sim)"
    and "length (levels sim) = max 1 (nat nlevels)" by simp_all
qed

text \<open>The constructor evaluated on the test configuration.\<close>

lemma demo_mr_init: "mr_init advection (1 / 4) 8 2 [3 / 2] 4 = Inr demo_built"
  by (simp add: demo_built_def mr_init_def patch_init_def zeros_def build_level_def
      build_patch_def advection_def enumerate_eq_zip upt_conv_Cons)

lemma demo_mr_init_empty: "mr_init advection (1 / 4) 8 2 [] 4 = Inr demo_empty"
  by (simp add: demo_empty_def mr_init_def patch_init_def zeros_def build_level_def
      build_patch_def advection_def enumerate_eq_zip upt_conv_Cons)

lemma demo_mr_init_narrow: "mr_init advection (1 / 4) 2 2 [1 / 4] 8 = Inr demo_narrow"
  by (simp add: demo_narrow_def mr_init_def patch_init_def zeros_def build_level_def
      build_patch_def advection_def enumerate_eq_zip upt_conv_Cons)

section \<open>Restriction without a parent\<close>

text \<open>
  C4: restriction called on a patch whose parent is absent returns at once; the store,
  and so the data buffer of every patch of the hierarchy, is unchanged.
\<close>

theorem restrict_no_parent:
  "parent (s ! self) = None \<Longrightarrow> restrict_interior s self = Inr s"
  by (simp add: restrict_interior_def)

theorem restrict_no_parent_witness:
  "parent (demo_store ! 0) = None \<and> restrict_interior demo_store 0 = Inr demo_store"
  using restrict_no_parent [of demo_store 0] by (simp add: demo_store_def demo_parent_def)

section \<open>The boundary kind is checked by the constructor\<close>

text \<open>
  C5: a boundary-kind string other than \<open>Periodic\<close> makes the constructor raise
  NotImplementedError, the one exception that is about the boundary kind. With
  \<open>Periodic\<close> the constructor never raises it, and it returns a patch whenever the
  buffer dimensions are not negative. No operation on a patch raises it afterwards:
  the two fills and restriction never do, and the explicit step does exactly when the
  caller's right-hand side raised it.
\<close>

theorem patch_init_boundary_kind:
  "(a_bcs \<noteq> ''Periodic'' \<longrightarrow>
      patch_init pr a_nx a_ngz a_x0 a_dx a_bcs a_parent a_start = Inl NotImplementedError) \<and>
   patch_init pr a_nx a_ngz a_x0 a_dx ''Periodic'' a_parent a_start \<noteq> Inl NotImplementedError \<and>
   (0 \<le> nv pr \<and> 0 \<le> a_nx + 2 * a_ngz \<longrightarrow>
      (\<exists>p. patch_init pr a_nx a_ngz a_x0 a_dx ''Periodic'' a_parent a_start = Inr p)) \<and>
   bcs_periodic s self \<noteq> Inl NotImplementedError \<and>
   bcs_mr s self \<noteq> Inl NotImplementedError \<and>
   restrict_interior s self \<noteq> Inl NotImplementedError \<and>
   ((euler_step s self dt = Inl NotImplementedError) =
      (rhs (problem (s ! self)) (data (s ! self)) (dx (s ! self)) = Inl NotImplementedError))"
proof -
  have "patch_init pr a_nx a_ngz a_x0 a_dx ''Periodic'' a_parent a_start \<noteq> Inl NotImplementedError"
    by (simp add: patch_init_def zeros_def)
  moreover have "bcs_periodic s self \<noteq> Inl NotImplementedError"
    using bcs_periodic_raises by blast
  moreover have "bcs_mr s self \<noteq> Inl NotImplementedError"
    using bcs_mr_raises by blast
  moreover have "restrict_interior s self \<noteq> Inl NotImplementedError"
    using restrict_interior_raises by blast
  moreover have "euler_step s self dt = Inl NotImplementedError"
    if "rhs (problem (s ! self)) (data (s ! self)) (dx (s ! self)) = Inl NotImplementedError"
    using that by (simp add: euler_step_def euler_update_def Let_def)
  ultimately show ?thesis
    using euler_step_raises by (auto simp: patch_init_def zeros_def)
qed

theorem patch_init_boundary_kind_witness:
  "''Dirichlet'' \<noteq> ''Periodic'' \<and>
   patch_init advection 8 2 0 (1 / 4) ''Dirichlet'' None None = Inl NotImplementedError \<and>
   0 \<le> nv advection \<and> (0::int) \<le> 8 + 2 * 2 \<and>
   (\<exists>p. patch_init advection 8 2 0 (1 / 4) ''Periodic'' None None = Inr p)"
  using patch_init_boundary_kind [of "''Dirichlet''" advection 8 2 0 "1 / 4" None None]
  by (simp add: advection_def)

section \<open>The refinement fill with one ghost cell\<close>

lemma set_data_nth:
  "set_data s self d ! k = (if k = self \<and> self < length s then (s ! self)\<lparr>data := d\<rparr> else s ! k)"
  by (cases "self < length s") (auto simp: set_data_def list_update_beyond)

lemma length_set_data [simp]: "length (set_data s self d) = length s"
  by (simp add: set_data_def)

lemma euler_update_Inr:
  assumes "euler_update s self dt = Inr s1"
  shows "\<exists>r d. rhs (problem (s ! self)) (data (s ! self)) (dx (s ! self)) = Inr r \<and>
           iadd_scaled (data (s ! self)) dt r = Inr d \<and> s1 = set_data s self d"
  using assms by (auto simp: euler_update_def Let_def bindE_eq_Inr)

lemma bcs_mr_one_ghost:
  "ngz (s ! self) = 1 \<Longrightarrow>
     bcs_mr s self = (case parent_i_start (s ! self) of None \<Rightarrow> Inl TypeError | Some i_s \<Rightarrow> Inr s)"
  by (simp add: bcs_mr_def split: option.splits)

lemma euler_step_dispatch:
  "euler_step s self dt =
     bindE (euler_update s self dt) (\<lambda>s1.
       if parent (s ! self) = None then bcs_periodic s1 self else bcs_mr s1 self)"
proof (cases "euler_update s self dt")
  case (Inl e)
  then show ?thesis by (simp add: euler_step_def)
next
  case (Inr s1)
  from euler_update_Inr [OF Inr] obtain d where "s1 = set_data s self d" by blast
  then have "parent (s1 ! self) = parent (s ! self)" by (simp add: set_data_nth)
  then show ?thesis using Inr
    by (simp add: euler_step_def call_bcs_def split: bc_method.splits)
qed

lemma euler_step_one_ghost:
  assumes "ngz (s ! self) = 1" "parent (s ! self) \<noteq> None" "parent_i_start (s ! self) \<noteq> None"
  shows "euler_step s self dt = euler_update s self dt"
proof (cases "euler_update s self dt")
  case (Inl e)
  then show ?thesis by (simp add: euler_step_def)
next
  case (Inr s1)
  from euler_update_Inr [OF Inr] obtain d where "s1 = set_data s self d" by blast
  then have "ngz (s1 ! self) = 1" "parent_i_start (s1 ! self) \<noteq> None"
    using assms by (simp_all add: set_data_nth)
  then have "bcs_mr s1 self = Inr s1" by (auto simp: bcs_mr_one_ghost)
  then show ?thesis using Inr assms(2) by (auto simp: euler_step_dispatch)
qed

lemma iadd_scaled_zero_col:
  assumes "iadd_scaled a c b = Inr d" and "list_all (\<lambda>v. length v = shape0 a) (cols a)"
    and "shape0 b = shape0 a" "shape1 b = shape1 a"
    and "j < shape1 a" "cols b ! j = replicate (shape0 a) 0"
  shows "cols d ! j = cols a ! j"
proof -
  have len: "length (cols a ! j) = shape0 a"
    using assms(2,5) by (simp add: list_all_length shape1_def)
  have "bget b i j = 0" if "i < shape0 a" for i
    using that assms by (auto simp: bget_def)
  then have "map (\<lambda>i. cols a ! j ! i + c * bget b i j) [0..<shape0 a] =
      map (\<lambda>i. cols a ! j ! i) [0..<shape0 a]"
    by simp
  also have "\<dots> = cols a ! j"
    using len by (metis map_nth)
  finally show ?thesis
    using assms(1,5) by (auto simp: iadd_scaled_def shape1_def split: if_splits)
qed

lemma euler_step_keeps_ghosts:
  assumes "self < length s" "ngz (s ! self) = 1" "parent (s ! self) \<noteq> None"
    "parent_i_start (s ! self) \<noteq> None" "patch_ok (s ! self)" "0 \<le> nx (s ! self)"
    and "rhs (problem (s ! self)) (data (s ! self)) (dx (s ! self)) = Inr r"
    and "shape0 r = shape0 (data (s ! self))" "shape1 r = shape1 (data (s ! self))"
    and "cols r ! 0 = replicate (shape0 r) 0" "cols r ! (shape1 r - 1) = replicate (shape0 r) 0"
  shows "\<exists>s'. euler_step s self dt = Inr s' \<and>
           cols (data (s' ! self)) ! 0 = cols (data (s ! self)) ! 0 \<and>
           cols (data (s' ! self)) ! (shape1 (data (s ! self)) - 1) =
             cols (data (s ! self)) ! (shape1 (data (s ! self)) - 1)"
proof -
  let ?a = "data (s ! self)"
  have w: "0 < shape1 ?a" and wf: "list_all (\<lambda>v. length v = shape0 ?a) (cols ?a)"
    using assms(2,5,6) by (auto simp: patch_ok_def has_shape_def)
  obtain d where d: "iadd_scaled ?a dt r = Inr d"
    using assms(8,9) by (simp add: iadd_scaled_def)
  then have step: "euler_step s self dt = Inr (set_data s self d)"
    using assms(2,3,4,7) by (simp add: euler_step_one_ghost euler_update_def Let_def)
  have "cols d ! 0 = cols ?a ! 0"
    using iadd_scaled_zero_col [OF d wf assms(8,9) w] assms(8,10) by simp
  moreover have "cols d ! (shape1 ?a - 1) = cols ?a ! (shape1 ?a - 1)"
    using iadd_scaled_zero_col [OF d wf assms(8,9), of "shape1 ?a - 1"] w assms(8,9,11) by simp
  ultimately show ?thesis
    using step assms(1) by (simp add: set_data_nth)
qed

text \<open>Evaluations on the test objects.\<close>

lemma demo_rhs: "RHS_advection (data demo_child1) (1/8) = Inr \<lparr>shape0 = 1, cols = [[0], [16], [-4], [-8], [-28], [0]]\<rparr>"
  by (simp add: RHS_advection_def demo_child1_def shape1_def flux_advection_def upt_conv_Cons)

text \<open>
  C6: every patch that \<open>mr_simulation\<close> constructs has \<open>ngz = 1\<close>. For a patch with
  \<open>ngz = 1\<close> the loop of \<open>bcs_mr\<close> runs \<open>1 // 2 = 0\<close> times: it returns the store as
  it was when \<open>parent_i_start\<close> is present (every child) and raises TypeError on
  \<open>None + 0\<close> when it is \<open>None\<close>, and no buffer is written in either case. So the
  explicit step of such a child is the update \<open>data += dt * rhs\<close> alone, and its two
  ghost columns keep their values from before the step when the right-hand side is zero
  there (as its contract says and \<open>RHS_advection\<close> does).
\<close>

theorem bcs_mr_single_ghost:
  "(mr_init pr base_dx base_nx nlevels x_centres child_nx = Inr sim \<longrightarrow>
      (\<forall>p\<in>set (patches sim). ngz p = 1)) \<and>
   (ngz (s ! self) = 1 \<longrightarrow>
      bcs_mr s self =
        (case parent_i_start (s ! self) of None \<Rightarrow> Inl TypeError | Some i_s \<Rightarrow> Inr s)) \<and>
   (ngz (s ! self) = 1 \<and> parent (s ! self) \<noteq> None \<and> parent_i_start (s ! self) \<noteq> None \<longrightarrow>
      euler_step s self dt = euler_update s self dt) \<and>
   (self < length s \<and> ngz (s ! self) = 1 \<and> parent (s ! self) \<noteq> None \<and>
    parent_i_start (s ! self) \<noteq> None \<and> patch_ok (s ! self) \<and> 0 \<le> nx (s ! self) \<and>
    rhs (problem (s ! self)) (data (s ! self)) (dx (s ! self)) = Inr r \<and>
    shape0 r = shape0 (data (s ! self)) \<and> shape1 r = shape1 (data (s ! self)) \<and>
    cols r ! 0 = replicate (shape0 r) 0 \<and> cols r ! (shape1 r - 1) = replicate (shape0 r) 0 \<longrightarrow>
      (\<exists>s'. euler_step s self dt = Inr s' \<and>
           cols (data (s' ! self)) ! 0 = cols (data (s ! self)) ! 0 \<and>
           cols (data (s' ! self)) ! (shape1 (data (s ! self)) - 1) =
             cols (data (s ! self)) ! (shape1 (data (s ! self)) - 1)))"
proof (intro conjI impI)
  assume "mr_init pr base_dx base_nx nlevels x_centres child_nx = Inr sim"
  from mr_init_inv(1) [OF this] show "\<forall>p\<in>set (patches sim). ngz p = 1"
    by (simp add: hier_inv_def)
next
  assume "ngz (s ! self) = 1"
  then show "bcs_mr s self =
        (case parent_i_start (s ! self) of None \<Rightarrow> Inl TypeError | Some i_s \<Rightarrow> Inr s)"
    by (rule bcs_mr_one_ghost)
next
  assume "ngz (s ! self) = 1 \<and> parent (s ! self) \<noteq> None \<and> parent_i_start (s ! self) \<noteq> None"
  then show "euler_step s self dt = euler_update s self dt"
    by (simp add: euler_step_one_ghost)
next
  assume "self < length s \<and> ngz (s ! self) = 1 \<and> parent (s ! self) \<noteq> None \<and>
    parent_i_start (s ! self) \<noteq> None \<and> patch_ok (s ! self) \<and> 0 \<le> nx (s ! self) \<and>
    rhs (problem (s ! self)) (data (s ! self)) (dx (s ! self)) = Inr r \<and>
    shape0 r = shape0 (data (s ! self)) \<and> shape1 r = shape1 (data (s ! self)) \<and>
    cols r ! 0 = replicate (shape0 r) 0 \<and> cols r ! (shape1 r - 1) = replicate (shape0 r) 0"
  then show "\<exists>s'. euler_step s self dt = Inr s' \<and>
           cols (data (s' ! self)) ! 0 = cols (data (s ! self)) ! 0 \<and>
           cols (data (s' ! self)) ! (shape1 (data (s ! self)) - 1) =
             cols (data (s ! self)) ! (shape1 (data (s ! self)) - 1)"
    using euler_step_keeps_ghosts by blast
qed

theorem bcs_mr_single_ghost_witness:
  "(\<exists>sim. mr_init advection (1 / 4) 8 2 [3 / 2] 4 = Inr sim \<and> (\<forall>p\<in>set (patches sim). ngz p = 1)) \<and>
   bcs_mr demo_store1 1 = Inr demo_store1 \<and>
   (\<exists>s'. euler_step demo_store1 1 (1 / 16) = Inr s' \<and>
         cols (data (s' ! 1)) ! 0 = cols (data (demo_store1 ! 1)) ! 0 \<and>
         cols (data (s' ! 1)) ! (shape1 (data (demo_store1 ! 1)) - 1) =
           cols (data (demo_store1 ! 1)) ! (shape1 (data (demo_store1 ! 1)) - 1))"
proof -
  obtain sim where sim: "mr_init advection (1 / 4) 8 2 [3 / 2] 4 = Inr sim"
    using demo_mr_init by blast
  note inst = bcs_mr_single_ghost [of advection "1 / 4" 8 2 "[3 / 2]" 4 sim demo_store1 1 "1 / 16"
      "\<lparr>shape0 = 1, cols = [[0], [16], [-4], [-8], [-28], [0]]\<rparr>"]
  have 1: "\<forall>p\<in>set (patches sim). ngz p = 1"
    using inst [THEN conjunct1] sim by blast
  have r: "rhs (problem (demo_store1 ! 1)) (data (demo_store1 ! 1)) (dx (demo_store1 ! 1)) =
      Inr \<lparr>shape0 = 1, cols = [[0], [16], [-4], [-8], [-28], [0]]\<rparr>"
    using demo_rhs by (simp add: demo_store1_def demo_child1_def advection_def)
  have ok: "patch_ok (demo_store1 ! 1)"
    by (simp add: patch_ok_def has_shape_def shape1_def demo_store1_def demo_child1_def advection_def)
  have 2: "bcs_mr demo_store1 1 = Inr demo_store1"
    using inst [THEN conjunct2, THEN conjunct1] by (simp add: demo_store1_def demo_child1_def)
  have 3: "\<exists>s'. euler_step demo_store1 1 (1 / 16) = Inr s' \<and>
         cols (data (s' ! 1)) ! 0 = cols (data (demo_store1 ! 1)) ! 0 \<and>
         cols (data (s' ! 1)) ! (shape1 (data (demo_store1 ! 1)) - 1) =
           cols (data (demo_store1 ! 1)) ! (shape1 (data (demo_store1 ! 1)) - 1)"
    using r ok
    by (intro inst [THEN conjunct2, THEN conjunct2, THEN conjunct2, rule_format])
      (simp add: demo_store1_def demo_child1_def shape1_def)
  from 1 2 3 sim show ?thesis by blast
qed

text \<open>
  C6 does not hold for every patch with one ghost cell: the base patch of a constructed
  hierarchy has \<open>ngz = 1\<close> and no \<open>parent_i_start\<close>, and on it \<open>bcs_mr\<close> does not
  return, it raises TypeError.
\<close>

theorem bcs_mr_base_patch_counterexample:
  "mr_init advection (1 / 4) 8 2 [3 / 2] 4 = Inr demo_built \<and>
   ngz (patches demo_built ! 0) = 1 \<and>
   bcs_mr (patches demo_built) 0 = Inl TypeError"
  using demo_mr_init by (simp add: demo_built_def bcs_mr_def)

section \<open>Which fill the explicit step applies\<close>

lemma demo_update:
  "euler_update demo_store1 1 (1 / 16) =
     Inr [demo_parent1, demo_child1\<lparr>data := \<lparr>shape0 = 1, cols = [[7], [2], [11 / 4], [3 / 2], [13 / 4], [9]]\<rparr>\<rparr>]"
  using demo_rhs
  by (simp add: euler_update_def demo_store1_def demo_child1_def advection_def iadd_scaled_def
      shape1_def bget_def set_data_def upt_conv_Cons)

lemma demo_periodic:
  "bcs_periodic [demo_parent1, demo_child1\<lparr>data := \<lparr>shape0 = 1, cols = [[7], [2], [11 / 4], [3 / 2], [13 / 4], [9]]\<rparr>\<rparr>] 1 =
     Inr [demo_parent1, demo_child1\<lparr>data := \<lparr>shape0 = 1, cols = [[13 / 4], [2], [11 / 4], [3 / 2], [13 / 4], [2]]\<rparr>\<rparr>]"
  by (simp add: bcs_periodic_def demo_child1_def setslice_def getslice_def slice_lo_def slice_hi_def
      slice_index_def shape1_def set_data_def)

text \<open>
  C10: the constructor only compares the boundary-kind string with \<open>Periodic\<close> and
  stores \<open>bcs_periodic\<close>. The explicit step chooses the fill by \<open>parent\<close> alone:
  the periodic fill when \<open>parent\<close> is \<open>None\<close>, \<open>bcs_mr\<close> otherwise, whatever
  \<open>bcs\<close> holds. Every patch that \<open>mr_simulation\<close> puts on a level above 0 was
  constructed with \<open>Periodic\<close> and has a parent, so its step never runs the periodic
  fill; with its single ghost cell the step is the bare update.
\<close>

theorem fill_chosen_by_parent:
  "(patch_init pr a_nx a_ngz a_x0 a_dx a_bcs a_parent a_start = Inr p \<longrightarrow>
      a_bcs = ''Periodic'' \<and> bcs p = BcsPeriodic \<and> parent p = a_parent) \<and>
   euler_step s self dt =
     bindE (euler_update s self dt) (\<lambda>s1.
       if parent (s ! self) = None then bcs_periodic s1 self else bcs_mr s1 self) \<and>
   (mr_init pr base_dx base_nx nlevels x_centres child_nx = Inr sim \<longrightarrow>
      (\<forall>i c. 0 < i \<and> i < length (levels sim) \<and> c \<in> set (levels sim ! i) \<longrightarrow>
         c < length (patches sim) \<and> bcs (patches sim ! c) = BcsPeriodic \<and>
         parent (patches sim ! c) \<noteq> None \<and>
         euler_step (patches sim) c dt = euler_update (patches sim) c dt))"
proof (intro conjI impI allI)
  assume "patch_init pr a_nx a_ngz a_x0 a_dx a_bcs a_parent a_start = Inr p"
  from patch_init_Inr [OF this]
  show "a_bcs = ''Periodic''" "bcs p = BcsPeriodic" "parent p = a_parent" by simp_all
next
  show "euler_step s self dt =
     bindE (euler_update s self dt) (\<lambda>s1.
       if parent (s ! self) = None then bcs_periodic s1 self else bcs_mr s1 self)"
    by (rule euler_step_dispatch)
next
  fix i c
  assume b: "mr_init pr base_dx base_nx nlevels x_centres child_nx = Inr sim"
    and ic: "0 < i \<and> i < length (levels sim) \<and> c \<in> set (levels sim ! i)"
  from mr_init_inv(1) [OF b] have inv: "hier_inv base_dx child_nx (patches sim) (levels sim)" .
  then have n: "ngz (patches sim ! c) = 1" and c: "c < length (patches sim)"
    using ic by (auto simp: hier_inv_def)
  have pp: "parent (patches sim ! c) \<noteq> None \<and> parent_i_start (patches sim ! c) \<noteq> None"
    using inv ic by (fastforce simp: hier_inv_def)
  show "c < length (patches sim)" by (rule c)
  show "bcs (patches sim ! c) = BcsPeriodic" by (cases "bcs (patches sim ! c)") simp
  show "parent (patches sim ! c) \<noteq> None" using pp by simp
  show "euler_step (patches sim) c dt = euler_update (patches sim) c dt"
    using n pp by (simp add: euler_step_one_ghost)
qed

theorem fill_chosen_by_parent_witness:
  "(\<exists>p. patch_init advection 4 1 (1 / 4) (1 / 8) ''Periodic'' (Some 0) (Some 2) = Inr p \<and>
        bcs p = BcsPeriodic \<and> parent p = Some 0) \<and>
   (\<exists>sim. mr_init advection (1 / 4) 8 2 [3 / 2] 4 = Inr sim \<and>
          (0::nat) < 1 \<and> 1 < length (levels sim) \<and> 1 \<in> set (levels sim ! 1) \<and>
          parent (patches sim ! 1) \<noteq> None \<and>
          euler_step (patches sim) 1 (1 / 16) = euler_update (patches sim) 1 (1 / 16)) \<and>
   euler_step demo_store1 1 (1 / 16) = euler_update demo_store1 1 (1 / 16) \<and>
   euler_step demo_store1 1 (1 / 16) \<noteq>
     bindE (euler_update demo_store1 1 (1 / 16)) (\<lambda>s1. bcs_periodic s1 1)"
proof -
  obtain p where p: "patch_init advection 4 1 (1 / 4) (1 / 8) ''Periodic'' (Some 0) (Some 2) = Inr p"
    by (auto simp: patch_init_def zeros_def advection_def)
  obtain sim where sim: "mr_init advection (1 / 4) 8 2 [3 / 2] 4 = Inr sim"
    and lv: "levels sim = [[0], [1]]"
    using demo_mr_init by (simp add: demo_built_def)
  note inst = fill_chosen_by_parent [of advection 4 1 "1 / 4" "1 / 8" "''Periodic''" "Some 0" "Some 2" p
      demo_store1 1 "1 / 16" "1 / 4" 8 2 "[3 / 2]" 4 sim]
  have 1: "bcs p = BcsPeriodic \<and> parent p = Some 0"
    using inst [THEN conjunct1] p by blast
  have 2: "parent (patches sim ! 1) \<noteq> None \<and>
      euler_step (patches sim) 1 (1 / 16) = euler_update (patches sim) 1 (1 / 16)"
    using inst [THEN conjunct2, THEN conjunct2, rule_format, OF sim, of 1 1] lv by simp
  have 3: "euler_step demo_store1 1 (1 / 16) =
      bindE (euler_update demo_store1 1 (1 / 16)) (\<lambda>s1. bcs_mr s1 1)"
    using inst [THEN conjunct2, THEN conjunct1] by (simp add: demo_store1_def demo_child1_def)
  have 4: "euler_step demo_store1 1 (1 / 16) = euler_update demo_store1 1 (1 / 16)"
    unfolding 3 using demo_update by (simp add: bcs_mr_one_ghost demo_child1_def)
  have 5: "euler_step demo_store1 1 (1 / 16) \<noteq>
     bindE (euler_update demo_store1 1 (1 / 16)) (\<lambda>s1. bcs_periodic s1 1)"
    unfolding 4 using demo_update demo_periodic by (simp add: demo_child1_def)
  from p 1 sim lv 2 4 5 show ?thesis by simp
qed

section \<open>The periodic fill\<close>

lemma bcs_periodic_cols:
  assumes w: "int (shape1 (data (s ! self))) = nx (s ! self) + 2 * ngz (s ! self)"
    and nx: "0 \<le> nx (s ! self)" and ngz: "1 \<le> ngz (s ! self)"
  shows "bcs_periodic s self =
     Inr (set_data s self ((data (s ! self))
       \<lparr>cols := take (nat (ngz (s ! self))) (drop (nat (nx (s ! self))) (cols (data (s ! self)))) @
                take (nat (nx (s ! self))) (drop (nat (ngz (s ! self))) (cols (data (s ! self)))) @
                take (nat (ngz (s ! self))) (drop (nat (ngz (s ! self))) (cols (data (s ! self))))\<rparr>))"
proof -
  define g where "g = nat (ngz (s ! self))"
  define m where "m = nat (nx (s ! self))"
  define d where "d = data (s ! self)"
  define c where "c = cols d"
  have gi: "ngz (s ! self) = int g" and mi: "nx (s ! self) = int m" and g: "0 < g"
    using nx ngz by (simp_all add: g_def m_def)
  have len: "length c = m + 2 * g"
    using w by (simp add: gi mi shape1_def c_def d_def)
  have cd: "cols d = c" by (simp add: c_def)
  have s1: "slice_hi (m + 2 * g) (Some (int g)) = g" "slice_lo (m + 2 * g) None = 0"
    "slice_lo (m + 2 * g) (Some (- (2 * int g))) = m" "slice_hi (m + 2 * g) (Some (- int g)) = m + g"
    "slice_lo (m + 2 * g) (Some (- int g)) = m + g" "slice_hi (m + 2 * g) None = m + 2 * g"
    "slice_lo (m + 2 * g) (Some (int g)) = g" "slice_hi (m + 2 * g) (Some (2 * int g)) = 2 * g"
    using g by (simp_all add: slice_lo_def slice_hi_def slice_index_def)
  have src1: "getslice d (Some (- (2 * int g))) (Some (- int g)) = take g (drop m c)"
    by (simp add: getslice_def shape1_def cd len s1 Let_def)
  define c1 where "c1 = take g (drop m c) @ drop g c"
  have st1: "setslice d None (Some (int g)) (take g (drop m c)) = Inr (d\<lparr>cols := c1\<rparr>)"
    by (simp add: setslice_def shape1_def cd len s1 Let_def c1_def)
  have len1: "length c1 = m + 2 * g" by (simp add: c1_def len)
  have dr1: "drop g c1 = drop g c" "take (m + g) c1 = take g (drop m c) @ take m (drop g c)"
    by (simp_all add: c1_def len)
  have src2: "getslice (d\<lparr>cols := c1\<rparr>) (Some (int g)) (Some (2 * int g)) = take g (drop g c)"
    by (simp add: getslice_def shape1_def len1 s1 Let_def dr1)
  have st2: "setslice (d\<lparr>cols := c1\<rparr>) (Some (- int g)) None (take g (drop g c)) =
      Inr (d\<lparr>cols := take g (drop m c) @ take m (drop g c) @ take g (drop g c)\<rparr>)"
    by (simp add: setslice_def shape1_def len1 s1 Let_def dr1 len)
  show ?thesis
    unfolding bcs_periodic_def Let_def gi mi d_def [symmetric]
    by (simp add: src1 st1 src2 st2 cd)
qed

lemma periodic_nth:
  assumes "length c = m + 2 * g"
  defines "c' \<equiv> take g (drop m c) @ take m (drop g c) @ take g (drop g c)"
  shows "length c' = m + 2 * g"
    and "j < g \<Longrightarrow> c' ! j = c ! (m + j)"
    and "j < m \<Longrightarrow> c' ! (g + j) = c ! (g + j)"
    and "j < g \<Longrightarrow> c' ! (g + m + j) = c ! (g + j)"
    and "set c' \<subseteq> set c"
proof -
  show "length c' = m + 2 * g" using assms(1) by (simp add: c'_def)
  show "j < g \<Longrightarrow> c' ! j = c ! (m + j)"
    using assms(1) by (simp add: c'_def nth_append)
  show "j < m \<Longrightarrow> c' ! (g + j) = c ! (g + j)"
    using assms(1) by (simp add: c'_def nth_append)
  show "j < g \<Longrightarrow> c' ! (g + m + j) = c ! (g + j)"
    using assms(1) by (simp add: c'_def nth_append)
  show "set c' \<subseteq> set c"
    unfolding c'_def by (auto dest!: in_set_takeD in_set_dropD)
qed



section \<open>Buffer shapes\<close>

lemma keeps_shapes_refl: "keeps_shapes s s"
  unfolding keeps_shapes_def
proof (intro conjI allI impI)
  fix k assume "k < length s"
  have "s ! k = (s ! k)\<lparr>data := data (s ! k)\<rparr>" by simp
  then show "\<exists>d. s ! k = (s ! k)\<lparr>data := d\<rparr> \<and>
        (\<forall>n w. has_shape (data (s ! k)) n w \<longrightarrow> has_shape d n w)" by blast
qed simp

lemma keeps_shapes_trans:
  assumes "keeps_shapes s s1" "keeps_shapes s1 s2"
  shows "keeps_shapes s s2"
  unfolding keeps_shapes_def
proof (intro conjI allI impI)
  show "length s2 = length s" using assms by (simp add: keeps_shapes_def)
next
  fix k assume k: "k < length s"
  with assms(1) obtain d1 where d1: "s1 ! k = (s ! k)\<lparr>data := d1\<rparr>"
    "\<forall>n w. has_shape (data (s ! k)) n w \<longrightarrow> has_shape d1 n w"
    unfolding keeps_shapes_def by blast
  from k assms have "k < length s1" by (simp add: keeps_shapes_def)
  with assms(2) obtain d2 where d2: "s2 ! k = (s1 ! k)\<lparr>data := d2\<rparr>"
    "\<forall>n w. has_shape (data (s1 ! k)) n w \<longrightarrow> has_shape d2 n w"
    unfolding keeps_shapes_def by blast
  have "s2 ! k = (s ! k)\<lparr>data := d2\<rparr>" using d1(1) d2(1) by simp
  moreover have "\<forall>n w. has_shape (data (s ! k)) n w \<longrightarrow> has_shape d2 n w"
    using d1 d2(2) by simp
  ultimately show "\<exists>d. s2 ! k = (s ! k)\<lparr>data := d\<rparr> \<and>
        (\<forall>n w. has_shape (data (s ! k)) n w \<longrightarrow> has_shape d n w)" by blast
qed

lemma keeps_shapes_set_data:
  assumes "\<forall>n w. has_shape (data (s ! q)) n w \<longrightarrow> has_shape d n w"
  shows "keeps_shapes s (set_data s q d)"
  unfolding keeps_shapes_def
proof (intro conjI allI impI)
  fix k assume k: "k < length s"
  show "\<exists>d'. set_data s q d ! k = (s ! k)\<lparr>data := d'\<rparr> \<and>
        (\<forall>n w. has_shape (data (s ! k)) n w \<longrightarrow> has_shape d' n w)"
  proof (cases "k = q")
    case True
    with k assms show ?thesis by (auto simp: set_data_nth)
  next
    case False
    then have "set_data s q d ! k = (s ! k)\<lparr>data := data (s ! k)\<rparr>" by (simp add: set_data_nth)
    then show ?thesis by blast
  qed
qed simp

lemma foldE_keeps_shapes:
  assumes "\<And>x s s'. f x s = Inr s' \<Longrightarrow> keeps_shapes s s'"
    and "foldE f xs s = Inr s'"
  shows "keeps_shapes s s'"
  using assms(2)
proof (induction xs arbitrary: s)
  case Nil
  then show ?case by (simp add: keeps_shapes_refl)
next
  case (Cons x xs)
  then obtain s1 where "f x s = Inr s1" "foldE f xs s1 = Inr s'"
    by (auto simp: bindE_eq_Inr)
  then show ?case using assms(1) Cons.IH keeps_shapes_trans by blast
qed

lemma setcol_shape:
  assumes "setcol a k v = Inr a'" "has_shape a n w"
  shows "has_shape a' n w"
proof -
  from assms(1) obtain j v' where "a' = a\<lparr>cols := (cols a)[j := v']\<rparr>" "length v' = shape0 a"
    by (auto simp: setcol_def bindE_eq_Inr split: if_splits)
  then show ?thesis
    using assms(2) set_update_subset_insert [of "cols a" j v']
    by (auto simp: has_shape_def shape1_def list_all_iff)
qed

lemma setslice_shape:
  assumes "setslice a lo hi b = Inr a'" "has_shape a n w" "\<forall>v\<in>set b. length v = shape0 a"
  shows "has_shape a' n w"
proof -
  define i where "i = slice_lo (shape1 a) lo"
  define t where "t = slice_hi (shape1 a) hi - i"
  have i: "i \<le> length (cols a)"
    by (auto simp: i_def slice_lo_def slice_index_def shape1_def split: option.splits)
  have "slice_hi (shape1 a) hi \<le> length (cols a)"
    by (auto simp: slice_hi_def slice_index_def shape1_def split: option.splits)
  with i have it: "i + t \<le> length (cols a)" by (simp add: t_def)
  have "\<exists>b'. a' = a\<lparr>cols := take i (cols a) @ b' @ drop (i + t) (cols a)\<rparr> \<and>
      length b' = t \<and> set b' \<subseteq> set b"
  proof (cases "length b = t")
    case True
    with assms(1) have "a' = a\<lparr>cols := take i (cols a) @ b @ drop (i + t) (cols a)\<rparr>"
      by (simp add: setslice_def Let_def i_def [symmetric] t_def [symmetric])
    with True show ?thesis by blast
  next
    case False
    with assms(1) have 1: "length b = 1"
      and 2: "a' = a\<lparr>cols := take i (cols a) @ replicate t (hd b) @ drop (i + t) (cols a)\<rparr>"
      by (simp_all add: setslice_def Let_def i_def [symmetric] t_def [symmetric] split: if_splits)
    from 1 have "hd b \<in> set b" by (cases b) simp_all
    then have "set (replicate t (hd b)) \<subseteq> set b" by auto
    with 2 show ?thesis by (intro exI [of _ "replicate t (hd b)"]) simp
  qed
  then obtain b' where a': "a' = a\<lparr>cols := take i (cols a) @ b' @ drop (i + t) (cols a)\<rparr>"
    and b': "length b' = t" "set b' \<subseteq> set b"
    by blast
  have "length (cols a') = length (cols a)" using a' b'(1) i it by simp
  moreover have "\<forall>v\<in>set (cols a'). length v = shape0 a"
    using a' b'(2) assms(2,3)
    by (auto simp: has_shape_def list_all_iff dest!: in_set_takeD in_set_dropD)
  moreover have "shape0 a' = shape0 a" using a' by simp
  ultimately show ?thesis using assms(2) by (simp add: has_shape_def shape1_def list_all_iff)
qed

lemma getslice_cols: "v \<in> set (getslice a lo hi) \<Longrightarrow> v \<in> set (cols a)"
  by (auto simp: getslice_def Let_def dest!: in_set_takeD in_set_dropD)

lemma iadd_scaled_shape:
  assumes "iadd_scaled a c b = Inr a'" "has_shape a n w"
  shows "has_shape a' n w"
  using assms by (auto simp: iadd_scaled_def has_shape_def shape1_def list_all_iff split: if_splits)

lemma bcs_periodic_keeps_shapes:
  assumes "bcs_periodic s self = Inr s'"
  shows "keeps_shapes s s'"
proof -
  let ?d = "data (s ! self)" and ?g = "ngz (s ! self)"
  from assms obtain d1 d2 where
    1: "setslice ?d None (Some ?g) (getslice ?d (Some (- 2 * ?g)) (Some (- ?g))) = Inr d1"
    and 2: "setslice d1 (Some (- ?g)) None (getslice d1 (Some ?g) (Some (2 * ?g))) = Inr d2"
    and s': "s' = set_data s self d2"
    by (auto simp: bcs_periodic_def Let_def bindE_eq_Inr)
  have "has_shape d2 n w" if h: "has_shape ?d n w" for n w
  proof -
    have "\<forall>v\<in>set (getslice ?d (Some (- 2 * ?g)) (Some (- ?g))). length v = shape0 ?d"
      using h by (auto simp: has_shape_def list_all_iff dest: getslice_cols)
    with 1 h have d1: "has_shape d1 n w" by (rule setslice_shape)
    then have "\<forall>v\<in>set (getslice d1 (Some ?g) (Some (2 * ?g))). length v = shape0 d1"
      by (auto simp: has_shape_def list_all_iff dest: getslice_cols)
    with 2 d1 show ?thesis by (rule setslice_shape)
  qed
  then show ?thesis unfolding s' by (intro keeps_shapes_set_data) blast
qed

lemma mr_assign_keeps_shapes:
  assumes "mr_assign self k wa ka wb kb s = Inr s'"
  shows "keeps_shapes s s'"
proof -
  from assms obtain v d where "setcol (data (s ! self)) k v = Inr d" "s' = set_data s self d"
    by (auto simp: mr_assign_def bindE_eq_Inr)
  then show ?thesis by (auto intro!: keeps_shapes_set_data elim: setcol_shape)
qed

lemma bcs_mr_body_keeps_shapes:
  assumes "bcs_mr_body self i_s i_e i s = Inr s'"
  shows "keeps_shapes s s'"
proof -
  from assms obtain s1 s2 s3 where
    "mr_assign self (2 * i) 1 (i_s - 2) 3 (i_s - 1) s = Inr s1"
    "mr_assign self (2 * i + 1) 3 (i_s - 1) 1 i_s s1 = Inr s2"
    "mr_assign self (- 2 * i - 1) 3 (i_e + 1) 1 (i_e + 2) s2 = Inr s3"
    "mr_assign self (- 2 * i - 2) 1 i_e 3 (i_e + 1) s3 = Inr s'"
    unfolding bcs_mr_body_def bindE_eq_Inr by blast
  then show ?thesis
    by (blast intro: keeps_shapes_trans dest: mr_assign_keeps_shapes)
qed

lemma bcs_mr_keeps_shapes:
  assumes "bcs_mr s self = Inr s'"
  shows "keeps_shapes s s'"
proof -
  from assms obtain i_s i_e xs where
    "foldE (bcs_mr_body self i_s i_e) xs s = Inr s'"
    by (auto simp: bcs_mr_def Let_def split: option.splits)
  then show ?thesis
    using foldE_keeps_shapes [of "bcs_mr_body self i_s i_e"] bcs_mr_body_keeps_shapes by blast
qed

lemma restrict_body_keeps_shapes:
  assumes "restrict_body self q i s = Inr s'"
  shows "keeps_shapes s s'"
proof -
  from assms obtain k v pd where "setcol (data (s ! q)) k v = Inr pd" "s' = set_data s q pd"
    by (auto simp: restrict_body_def Let_def bindE_eq_Inr split: if_splits option.splits)
  then show ?thesis by (auto intro!: keeps_shapes_set_data elim: setcol_shape)
qed

lemma restrict_interior_keeps_shapes:
  assumes "restrict_interior s self = Inr s'"
  shows "keeps_shapes s s'"
proof (cases "parent (s ! self)")
  case None
  with assms show ?thesis by (simp add: restrict_interior_def keeps_shapes_refl)
next
  case (Some q)
  with assms have "foldE (restrict_body self q) (map int [0..<nat (nx (s ! self) div 2)]) s = Inr s'"
    by (simp add: restrict_interior_def)
  then show ?thesis
    using foldE_keeps_shapes [of "restrict_body self q"] restrict_body_keeps_shapes by blast
qed

lemma euler_update_keeps_shapes:
  assumes "euler_update s self dt = Inr s'"
  shows "keeps_shapes s s'"
proof -
  from euler_update_Inr [OF assms] obtain r d where
    "iadd_scaled (data (s ! self)) dt r = Inr d" "s' = set_data s self d" by blast
  then show ?thesis by (auto intro!: keeps_shapes_set_data elim: iadd_scaled_shape)
qed

lemma euler_step_keeps_shapes:
  assumes "euler_step s self dt = Inr s'"
  shows "keeps_shapes s s'"
proof -
  from assms obtain s1 where 1: "euler_update s self dt = Inr s1"
    and 2: "(if parent (s ! self) = None then bcs_periodic s1 self else bcs_mr s1 self) = Inr s'"
    unfolding euler_step_dispatch bindE_eq_Inr by blast
  from 2 have "keeps_shapes s1 s'"
    by (auto split: if_splits dest: bcs_periodic_keeps_shapes bcs_mr_keeps_shapes)
  with euler_update_keeps_shapes [OF 1] show ?thesis by (rule keeps_shapes_trans)
qed

lemma keeps_shapes_patch_ok:
  assumes "keeps_shapes s s'" "list_all patch_ok s"
  shows "list_all patch_ok s'"
  unfolding list_all_length
proof (intro allI impI)
  fix k assume "k < length s'"
  with assms(1) have k: "k < length s" by (simp add: keeps_shapes_def)
  with assms(1) obtain d where d: "s' ! k = (s ! k)\<lparr>data := d\<rparr>"
    "\<forall>n w. has_shape (data (s ! k)) n w \<longrightarrow> has_shape d n w"
    unfolding keeps_shapes_def by blast
  from assms(2) k have "patch_ok (s ! k)" by (simp add: list_all_length)
  with d show "patch_ok (s' ! k)" by (simp add: patch_ok_def)
qed

text \<open>Evaluations on the test objects.\<close>

lemma demo_bcs_mr:
  "bcs_mr demo_store 1 =
     Inr [demo_parent,
          demo_child\<lparr>data := \<lparr>shape0 = 1,
             cols = [[11 / 4], [13 / 4], [4], [6], [5], [5], [6], [8], [7], [9], [23 / 4], [25 / 4]]\<rparr>\<rparr>]"
  by (simp add: bcs_mr_def bcs_mr_body_def mr_assign_def parent_data_def getcol_def setcol_def
      py_index_def shape1_def set_data_def smul_def vadd_def demo_store_def demo_child_def
      demo_parent_def upt_conv_Cons)

lemma demo_restrict:
  "restrict_interior demo_store 1 =
     Inr [demo_parent\<lparr>data := \<lparr>shape0 = 1,
             cols = [[0], [1], [2], [3], [5], [5], [7], [8], [8], [9], [10], [11]]\<rparr>\<rparr>,
          demo_child]"
  by (simp add: restrict_interior_def restrict_body_def getcol_def setcol_def
      py_index_def shape1_def set_data_def smul_def vadd_def demo_store_def demo_child_def
      demo_parent_def upt_conv_Cons)

lemma demo_euler_step:
  "euler_step demo_store1 1 (1 / 16) =
     Inr [demo_parent1, demo_child1\<lparr>data := \<lparr>shape0 = 1, cols = [[7], [2], [11 / 4], [3 / 2], [13 / 4], [9]]\<rparr>\<rparr>]"
proof -
  have "euler_step demo_store1 1 (1 / 16) = euler_update demo_store1 1 (1 / 16)"
    by (rule euler_step_one_ghost) (simp_all add: demo_store1_def demo_child1_def)
  then show ?thesis by (simp only: demo_update)
qed

lemma demo_euler_step_base:
  "euler_step demo_store1 0 (1 / 16) =
     Inr [demo_parent1\<lparr>data := \<lparr>shape0 = 1, cols = [[15 / 4], [3 / 4], [7 / 4], [11 / 4], [15 / 4], [3 / 4]]\<rparr>\<rparr>,
          demo_child1]"
  by (simp add: euler_step_def euler_update_def call_bcs_def bcs_periodic_def RHS_advection_def
      flux_advection_def iadd_scaled_def bget_def setslice_def getslice_def slice_lo_def
      slice_hi_def slice_index_def shape1_def set_data_def demo_store1_def demo_parent1_def
      advection_def upt_conv_Cons)

text \<open>
  C9: the constructor returns a patch whose buffer has the shape
  \<open>(nv, nx + 2 * ngz)\<close>, and so is every patch of a hierarchy that \<open>mr_simulation\<close>
  has built. The periodic fill, the refinement fill, the explicit step and restriction,
  whenever they return, return the same patches with at most their data replaced by
  buffers of the same shape; so every patch of the store keeps its shape.
\<close>

theorem buffer_shape_invariant:
  "(patch_init pr a_nx a_ngz a_x0 a_dx a_bcs a_parent a_start = Inr p \<longrightarrow>
      has_shape (data p) (nv pr) (a_nx + 2 * a_ngz) \<and> patch_ok p) \<and>
   (mr_init pr base_dx base_nx nlevels x_centres child_nx = Inr sim \<longrightarrow>
      list_all patch_ok (patches sim)) \<and>
   (bcs_periodic s self = Inr s' \<longrightarrow> keeps_shapes s s') \<and>
   (bcs_mr s self = Inr s' \<longrightarrow> keeps_shapes s s') \<and>
   (euler_step s self dt = Inr s' \<longrightarrow> keeps_shapes s s') \<and>
   (restrict_interior s self = Inr s' \<longrightarrow> keeps_shapes s s') \<and>
   (keeps_shapes s s' \<and> list_all patch_ok s \<longrightarrow> list_all patch_ok s')"
proof (intro conjI impI)
  assume "patch_init pr a_nx a_ngz a_x0 a_dx a_bcs a_parent a_start = Inr p"
  from patch_init_Inr [OF this]
  show "has_shape (data p) (nv pr) (a_nx + 2 * a_ngz)" and "patch_ok p"
    by (simp_all add: patch_ok_def)
next
  assume "mr_init pr base_dx base_nx nlevels x_centres child_nx = Inr sim"
  from mr_init_inv(1) [OF this] show "list_all patch_ok (patches sim)"
    by (simp add: hier_inv_def list_all_iff)
next
  assume "keeps_shapes s s' \<and> list_all patch_ok s"
  then show "list_all patch_ok s'" using keeps_shapes_patch_ok by blast
qed (fact bcs_periodic_keeps_shapes bcs_mr_keeps_shapes euler_step_keeps_shapes
    restrict_interior_keeps_shapes)+

theorem buffer_shape_invariant_witness:
  "(\<exists>p. patch_init advection 8 2 0 (1 / 4) ''Periodic'' None None = Inr p \<and>
        has_shape (data p) 1 12) \<and>
   (\<exists>sim. mr_init advection (1 / 4) 8 2 [3 / 2] 4 = Inr sim \<and> list_all patch_ok (patches sim)) \<and>
   list_all patch_ok demo_store \<and> list_all patch_ok demo_store1 \<and>
   (\<exists>s'. bcs_periodic demo_store 0 = Inr s' \<and> keeps_shapes demo_store s' \<and> list_all patch_ok s') \<and>
   (\<exists>s'. bcs_mr demo_store 1 = Inr s' \<and> keeps_shapes demo_store s' \<and> list_all patch_ok s') \<and>
   (\<exists>s'. restrict_interior demo_store 1 = Inr s' \<and> keeps_shapes demo_store s' \<and> list_all patch_ok s') \<and>
   (\<exists>s'. euler_step demo_store1 0 (1 / 16) = Inr s' \<and> keeps_shapes demo_store1 s' \<and> list_all patch_ok s') \<and>
   (\<exists>s'. euler_step demo_store1 1 (1 / 16) = Inr s' \<and> keeps_shapes demo_store1 s' \<and> list_all patch_ok s')"
proof -
  have ok: "list_all patch_ok demo_store" "list_all patch_ok demo_store1"
    by (simp_all add: patch_ok_def has_shape_def shape1_def demo_store_def demo_parent_def
        demo_child_def demo_store1_def demo_parent1_def demo_child1_def advection_def)
  obtain p where p: "patch_init advection 8 2 0 (1 / 4) ''Periodic'' None None = Inr p"
    by (auto simp: patch_init_def zeros_def advection_def)
  obtain sim where sim: "mr_init advection (1 / 4) 8 2 [3 / 2] 4 = Inr sim"
    using demo_mr_init by simp
  have 1: "has_shape (data p) 1 12"
    using buffer_shape_invariant [of advection 8 2 0 "1 / 4" "''Periodic''" None None p, THEN conjunct1]
      p by (simp add: advection_def)
  have 2: "list_all patch_ok (patches sim)"
    using buffer_shape_invariant [where pr = advection and base_dx = "1 / 4" and base_nx = 8
        and nlevels = 2 and x_centres = "[3 / 2]" and child_nx = 4 and sim = sim] sim
    by blast
  obtain s1 where s1: "bcs_periodic demo_store 0 = Inr s1"
    using bcs_periodic_cols [of demo_store 0]
    by (auto simp: demo_store_def demo_parent_def shape1_def)
  obtain s2 where s2: "bcs_mr demo_store 1 = Inr s2" using demo_bcs_mr by simp
  obtain s3 where s3: "restrict_interior demo_store 1 = Inr s3" using demo_restrict by simp
  obtain s4 where s4: "euler_step demo_store1 0 (1 / 16) = Inr s4"
    using demo_euler_step_base by simp
  obtain s5 where s5: "euler_step demo_store1 1 (1 / 16) = Inr s5"
    using demo_euler_step by simp
  note i1 = buffer_shape_invariant [where s = demo_store and self = 0 and s' = s1]
  note i2 = buffer_shape_invariant [where s = demo_store and self = 1 and s' = s2]
  note i3 = buffer_shape_invariant [where s = demo_store and self = 1 and s' = s3]
  note i4 = buffer_shape_invariant [where s = demo_store1 and self = 0 and s' = s4 and dt = "1 / 16"]
  note i5 = buffer_shape_invariant [where s = demo_store1 and self = 1 and s' = s5 and dt = "1 / 16"]
  have "keeps_shapes demo_store s1 \<and> list_all patch_ok s1" using i1 s1 ok by blast
  moreover have "keeps_shapes demo_store s2 \<and> list_all patch_ok s2" using i2 s2 ok by blast
  moreover have "keeps_shapes demo_store s3 \<and> list_all patch_ok s3" using i3 s3 ok by blast
  moreover have "keeps_shapes demo_store1 s4 \<and> list_all patch_ok s4" using i4 s4 ok by blast
  moreover have "keeps_shapes demo_store1 s5 \<and> list_all patch_ok s5" using i5 s5 ok by blast
  ultimately show ?thesis using p 1 sim 2 ok s1 s2 s3 s4 s5 by blast
qed

section \<open>Restriction into the parent\<close>

lemma set_data_twice [simp]: "set_data (set_data s q d) q d' = set_data s q d'"
  by (cases "q < length s") (simp_all add: set_data_def list_update_beyond)

lemma getcol_in_range:
  "0 \<le> k \<Longrightarrow> k < int (shape1 a) \<Longrightarrow> getcol a k = Inr (cols a ! nat k)"
  by (simp add: getcol_def py_index_def)

lemma setcol_in_range:
  "0 \<le> k \<Longrightarrow> k < int (shape1 a) \<Longrightarrow> length v = shape0 a \<Longrightarrow>
     setcol a k v = Inr (a\<lparr>cols := (cols a)[nat k := v]\<rparr>)"
  by (simp add: setcol_def py_index_def)

lemma length_mean:
  "length a = n \<Longrightarrow> length b = n \<Longrightarrow> length (smul c (vadd a b)) = n"
  by (simp add: smul_def vadd_def)

lemma mean_nth:
  "r < length a \<Longrightarrow> r < length b \<Longrightarrow> smul (1 / 2) (vadd a b) ! r = (a ! r + b ! r) / 2"
  by (simp add: smul_def vadd_def)

lemma restrict_loop:
  fixes s :: store and st :: int
  assumes self: "self < length s" and q: "q < length s" "q \<noteq> self"
    and st: "parent_i_start (s ! self) = Some st" "0 \<le> st"
      "st + nx (s ! self) div 2 \<le> int (shape1 (data (s ! q)))"
    and ok: "patch_ok (s ! self)" "0 \<le> ngz (s ! self)"
    and nv: "shape0 (data (s ! q)) = shape0 (data (s ! self))"
    and k: "k \<le> nat (nx (s ! self) div 2)"
  shows "\<exists>pd. foldE (restrict_body self q) (map int [0..<k]) s = Inr (set_data s q pd) \<and>
      shape0 pd = shape0 (data (s ! q)) \<and> length (cols pd) = length (cols (data (s ! q))) \<and>
      (\<forall>i<k. cols pd ! (nat st + i) =
         smul (1 / 2) (vadd (cols (data (s ! self)) ! (nat (ngz (s ! self)) + 2 * i))
                            (cols (data (s ! self)) ! (nat (ngz (s ! self)) + 2 * i + 1)))) \<and>
      (\<forall>j. j < nat st \<or> nat st + k \<le> j \<longrightarrow> cols pd ! j = cols (data (s ! q)) ! j)"
  using k
proof (induction k)
  case 0
  have "set_data s q (data (s ! q)) = s" by (simp add: set_data_def)
  then have "foldE (restrict_body self q) (map int [0..<0]) s = Inr (set_data s q (data (s ! q)))"
    by simp
  then show ?case by blast
next
  case (Suc k)
  let ?dc = "data (s ! self)" and ?g = "ngz (s ! self)"
  let ?mean = "\<lambda>i. smul (1 / 2) (vadd (cols ?dc ! (nat ?g + 2 * i)) (cols ?dc ! (nat ?g + 2 * i + 1)))"
  from Suc obtain pd where
    run: "foldE (restrict_body self q) (map int [0..<k]) s = Inr (set_data s q pd)"
    and sh: "shape0 pd = shape0 (data (s ! q))" "length (cols pd) = length (cols (data (s ! q)))"
    and new: "\<forall>i<k. cols pd ! (nat st + i) = ?mean i"
    and old: "\<forall>j. j < nat st \<or> nat st + k \<le> j \<longrightarrow> cols pd ! j = cols (data (s ! q)) ! j"
    by auto
  let ?s1 = "set_data s q pd"
  have child: "?s1 ! self = s ! self" using q by (simp add: set_data_nth)
  have par: "data (?s1 ! q) = pd" using q by (simp add: set_data_nth)
  from Suc.prems have kk: "int k < nx (s ! self) div 2" by simp
  then have k2: "2 * int k + 1 < nx (s ! self)" by simp
  from ok have w: "int (shape1 ?dc) = nx (s ! self) + 2 * ?g"
    and wf: "\<forall>c\<in>set (cols ?dc). length c = shape0 ?dc"
    by (simp_all add: patch_ok_def has_shape_def list_all_iff)
  have ia: "0 \<le> 2 * int k + ?g" "2 * int k + ?g < int (shape1 ?dc)"
    and ib: "0 \<le> 2 * int k + 1 + ?g" "2 * int k + 1 + ?g < int (shape1 ?dc)"
    using k2 ok(2) w by simp_all
  have na: "nat (2 * int k + ?g) = nat ?g + 2 * k" and nb: "nat (2 * int k + 1 + ?g) = nat ?g + 2 * k + 1"
    using ok(2) by simp_all
  have la: "length (cols ?dc ! (nat ?g + 2 * k)) = shape0 ?dc"
    and lb: "length (cols ?dc ! (nat ?g + 2 * k + 1)) = shape0 ?dc"
    using wf ia ib ok(2) by (simp_all add: shape1_def)
  have lm: "length (?mean k) = shape0 pd"
    using la lb sh(1) nv by (simp add: length_mean)
  have ic: "0 \<le> st + int k" "st + int k < int (shape1 pd)"
    using st(2,3) kk sh(2) by (simp_all add: shape1_def)
  have ga: "getcol ?dc (2 * int k + ?g) = Inr (cols ?dc ! (nat ?g + 2 * k))"
    using getcol_in_range [OF ia] by (simp only: na)
  have gb: "getcol ?dc (2 * int k + 1 + ?g) = Inr (cols ?dc ! (nat ?g + 2 * k + 1))"
    using getcol_in_range [OF ib] by (simp only: nb)
  have sc: "setcol pd (st + int k) (?mean k) =
      Inr (pd\<lparr>cols := (cols pd)[nat (st + int k) := ?mean k]\<rparr>)"
    using ic lm by (rule setcol_in_range)
  have q1: "q < length ?s1" using q(1) by simp
  have half: "(0.5::real) = 1 / 2" by simp
  have body: "restrict_body self q (int k) ?s1 =
      Inr (set_data s q (pd\<lparr>cols := (cols pd)[nat (st + int k) := ?mean k]\<rparr>))"
    unfolding restrict_body_def Let_def child par half
    by (simp only: ga gb bindE_Inr q1 if_True st(1) option.case sc set_data_twice)
  let ?pd' = "pd\<lparr>cols := (cols pd)[nat st + k := ?mean k]\<rparr>"
  have nst: "nat (st + int k) = nat st + k" using st(2) by simp
  have "[0..<Suc k] = [0..<k] @ [k]" by simp
  then have "foldE (restrict_body self q) (map int [0..<Suc k]) s = Inr (set_data s q ?pd')"
    using run body by (simp add: foldE_append nst)
  moreover have "shape0 ?pd' = shape0 (data (s ! q))" "length (cols ?pd') = length (cols (data (s ! q)))"
    using sh by simp_all
  moreover have "\<forall>i<Suc k. cols ?pd' ! (nat st + i) = ?mean i"
  proof (intro allI impI)
    fix i assume "i < Suc k"
    have "nat st + k < length (cols pd)" using ic by (simp add: shape1_def nst [symmetric])
    then show "cols ?pd' ! (nat st + i) = ?mean i"
      using new \<open>i < Suc k\<close> by (cases "i = k") (simp_all add: nth_list_update)
  qed
  moreover have "\<forall>j. j < nat st \<or> nat st + Suc k \<le> j \<longrightarrow> cols ?pd' ! j = cols (data (s ! q)) ! j"
    using old by (auto simp: nth_list_update)
  ultimately show ?case by blast
qed




section \<open>The evolution loop\<close>

lemma foldE_concat: "foldE (\<lambda>l. foldE f l) ls s = foldE f (concat ls) s"
proof (induction ls arbitrary: s)
  case Nil
  show ?case by simp
next
  case (Cons l ls)
  show ?case by (cases "foldE f l s") (simp_all add: foldE_append Cons.IH)
qed

lemma pass_schedule:
  "bindE (step_levels dt lvs s) (restrict_levels lvs) = schedule_pass dt lvs s"
proof -
  have "restrict_levels lvs = foldE (\<lambda>p s'. restrict_interior s' p) (concat (rev lvs))"
    by (rule ext) (simp add: restrict_levels_def foldE_concat)
  then show ?thesis
    by (simp add: schedule_pass_def step_levels_def foldE_concat)
qed

lemma evolve_loop_unfold:
  "evolve_loop fadd lvs dt t_end t s =
     (if t < t_end
      then (case schedule_pass dt lvs s of
              Inl e \<Rightarrow> Some (Inl e)
            | Inr s' \<Rightarrow> evolve_loop fadd lvs dt t_end (fadd t dt) s')
      else Some (Inr s))"
  by (subst evolve_loop.simps) (simp only: pass_schedule)

lemma evolve_loop_returns:
  assumes "\<forall>k<n. loop_time fadd dt t k < t_end" and "\<not> loop_time fadd dt t n < t_end"
  shows "evolve_loop fadd lvs dt t_end t s = Some (repeatE n (schedule_pass dt lvs) s)"
  using assms
proof (induction n arbitrary: t s)
  case 0
  then show ?case by (subst evolve_loop_unfold) simp
next
  case (Suc n)
  from Suc.prems(1) have lt: "t < t_end" by force
  have 1: "\<forall>k<n. loop_time fadd dt (fadd t dt) k < t_end"
  proof (intro allI impI)
    fix k assume "k < n"
    then have "Suc k < Suc n" by simp
    with Suc.prems(1) have "loop_time fadd dt t (Suc k) < t_end" by blast
    then show "loop_time fadd dt (fadd t dt) k < t_end" by simp
  qed
  have 2: "\<not> loop_time fadd dt (fadd t dt) n < t_end" using Suc.prems(2) by simp
  show ?case
  proof (cases "schedule_pass dt lvs s")
    case (Inl e)
    then show ?thesis using lt by (subst evolve_loop_unfold) simp
  next
    case (Inr s')
    then show ?thesis using lt Suc.IH [OF 1 2, of s'] by (subst evolve_loop_unfold) simp
  qed
qed

text \<open>
  One pass over the three nested test patches, and the same steps followed by
  restriction in the opposite order, coarsest level first: the base patch differs.
\<close>

lemma demo_pass3:
  "schedule_pass (1 / 32) [[0], [1], [2]] demo_store3 =
     Inr [demo3_base\<lparr>data := \<lparr>shape0 = 1,
             cols = [[31 / 8], [7 / 8], [27 / 16], [61 / 8], [31 / 8], [7 / 8]]\<rparr>\<rparr>,
          demo3_mid\<lparr>data := \<lparr>shape0 = 1,
             cols = [[7], [3 / 2], [15 / 8], [89 / 8], [33 / 8], [9]]\<rparr>\<rparr>,
          demo3_fine\<lparr>data := \<lparr>shape0 = 1,
             cols = [[1], [5 / 4], [5 / 2], [5], [69 / 4], [3]]\<rparr>\<rparr>]"
  and demo_coarse_first3:
  "bindE (foldE (\<lambda>p s'. euler_step s' p (1 / 32)) (concat [[0], [1], [2]]) demo_store3)
     (foldE (\<lambda>p s'. restrict_interior s' p) (concat [[0], [1], [2]])) =
     Inr [demo3_base\<lparr>data := \<lparr>shape0 = 1,
             cols = [[31 / 8], [7 / 8], [35 / 16], [47 / 16], [31 / 8], [7 / 8]]\<rparr>\<rparr>,
          demo3_mid\<lparr>data := \<lparr>shape0 = 1,
             cols = [[7], [3 / 2], [15 / 8], [89 / 8], [33 / 8], [9]]\<rparr>\<rparr>,
          demo3_fine\<lparr>data := \<lparr>shape0 = 1,
             cols = [[1], [5 / 4], [5 / 2], [5], [69 / 4], [3]]\<rparr>\<rparr>]"
proof -
  let ?b = "demo3_base\<lparr>data := \<lparr>shape0 = 1,
             cols = [[31 / 8], [7 / 8], [15 / 8], [23 / 8], [31 / 8], [7 / 8]]\<rparr>\<rparr>"
  let ?m = "demo3_mid\<lparr>data := \<lparr>shape0 = 1,
             cols = [[7], [3 / 2], [23 / 8], [7 / 4], [33 / 8], [9]]\<rparr>\<rparr>"
  let ?f = "demo3_fine\<lparr>data := \<lparr>shape0 = 1,
             cols = [[1], [5 / 4], [5 / 2], [5], [69 / 4], [3]]\<rparr>\<rparr>"
  let ?mr = "demo3_mid\<lparr>data := \<lparr>shape0 = 1,
             cols = [[7], [3 / 2], [15 / 8], [89 / 8], [33 / 8], [9]]\<rparr>\<rparr>"
  let ?br = "demo3_base\<lparr>data := \<lparr>shape0 = 1,
             cols = [[31 / 8], [7 / 8], [27 / 16], [61 / 8], [31 / 8], [7 / 8]]\<rparr>\<rparr>"
  let ?bc = "demo3_base\<lparr>data := \<lparr>shape0 = 1,
             cols = [[31 / 8], [7 / 8], [35 / 16], [47 / 16], [31 / 8], [7 / 8]]\<rparr>\<rparr>"
  note step_defs = euler_step_def euler_update_def call_bcs_def bcs_periodic_def bcs_mr_def
      RHS_advection_def flux_advection_def iadd_scaled_def bget_def setslice_def getslice_def
      slice_lo_def slice_hi_def slice_index_def shape1_def set_data_def advection_def
      upt_conv_Cons numeral_2_eq_2
  note restrict_defs = restrict_interior_def restrict_body_def getcol_def setcol_def
      py_index_def shape1_def set_data_def smul_def vadd_def upt_conv_Cons numeral_2_eq_2
  have 1: "euler_step demo_store3 0 (1 / 32) = Inr [?b, demo3_mid, demo3_fine]"
    by (simp add: step_defs demo_store3_def demo3_base_def)
  have 2: "euler_step [?b, demo3_mid, demo3_fine] 1 (1 / 32) = Inr [?b, ?m, demo3_fine]"
    by (simp add: step_defs demo3_mid_def)
  have 3: "euler_step [?b, ?m, demo3_fine] 2 (1 / 32) = Inr [?b, ?m, ?f]"
    by (simp add: step_defs demo3_fine_def)
  have 4: "restrict_interior [?b, ?m, ?f] 2 = Inr [?b, ?mr, ?f]"
    by (simp add: restrict_defs demo3_mid_def demo3_fine_def)
  have 5: "restrict_interior [?b, ?mr, ?f] 1 = Inr [?br, ?mr, ?f]"
    by (simp add: restrict_defs demo3_mid_def demo3_base_def)
  have 6: "restrict_interior [?br, ?mr, ?f] 0 = Inr [?br, ?mr, ?f]"
    by (simp add: restrict_interior_def demo3_base_def)
  have 7: "restrict_interior [?b, ?m, ?f] 0 = Inr [?b, ?m, ?f]"
    by (simp add: restrict_interior_def demo3_base_def)
  have 8: "restrict_interior [?b, ?m, ?f] 1 = Inr [?bc, ?m, ?f]"
    by (simp add: restrict_defs demo3_mid_def demo3_base_def)
  have 9: "restrict_interior [?bc, ?m, ?f] 2 = Inr [?bc, ?mr, ?f]"
    by (simp add: restrict_defs demo3_mid_def demo3_fine_def)
  show "schedule_pass (1 / 32) [[0], [1], [2]] demo_store3 = Inr [?br, ?mr, ?f]"
    unfolding schedule_pass_def
    by (simp only: concat.simps rev.simps append.simps foldE.simps bindE_Inr 1 2 3 4 5 6)
  show "bindE (foldE (\<lambda>p s'. euler_step s' p (1 / 32)) (concat [[0], [1], [2]]) demo_store3)
     (foldE (\<lambda>p s'. restrict_interior s' p) (concat [[0], [1], [2]])) = Inr [?bc, ?mr, ?f]"
    by (simp only: concat.simps append.simps foldE.simps bindE_Inr 1 2 3 7 8 9)
qed

text \<open>
  C2, amended: on a hierarchy without levels or with an empty last level \<open>evolve\<close>
  raises IndexError. Otherwise it computes one step \<open>dt = 0.5 * dx\<close> from the first
  patch of the last (finest) level and runs its loop with it. Every iteration of the
  loop is one \<open>schedule_pass\<close> with that \<open>dt\<close>: the explicit step on every patch of
  every level, then restriction over the levels in reverse order, finest first and base
  last. When the loop time, accumulated with the float addition, is first not below
  \<open>t_end\<close> after \<open>n\<close> additions, the loop returns after exactly \<open>n\<close> such passes (or
  with the first exception).
\<close>

theorem evolve_schedule:
  "(levels sim = [] \<or> last (levels sim) = [] \<longrightarrow> evolve fadd sim t_end = Some (Inl IndexError)) \<and>
   (levels sim \<noteq> [] \<and> last (levels sim) \<noteq> [] \<longrightarrow>
      evolve fadd sim t_end =
        map_option (map_sum id (\<lambda>s. sim\<lparr>patches := s\<rparr>))
          (evolve_loop fadd (levels sim) (0.5 * dx (patches sim ! hd (last (levels sim)))) t_end 0
             (patches sim))) \<and>
   evolve_loop fadd lvs dt t_end t s =
     (if t < t_end
      then (case schedule_pass dt lvs s of
              Inl e \<Rightarrow> Some (Inl e)
            | Inr s' \<Rightarrow> evolve_loop fadd lvs dt t_end (fadd t dt) s')
      else Some (Inr s)) \<and>
   ((\<forall>k<n. loop_time fadd dt t k < t_end) \<and> \<not> loop_time fadd dt t n < t_end \<longrightarrow>
      evolve_loop fadd lvs dt t_end t s = Some (repeatE n (schedule_pass dt lvs) s))"
  using evolve_loop_unfold [of fadd lvs dt t_end t s]
    evolve_loop_returns [of n fadd dt t t_end lvs s]
  by (simp add: evolve_def Let_def)

theorem evolve_schedule_witness:
  "levels demo_sim3 \<noteq> [] \<and> last (levels demo_sim3) \<noteq> [] \<and>
   loop_time (+) (1 / 32) 0 0 < 1 / 32 \<and> \<not> loop_time (+) (1 / 32) 0 1 < 1 / 32 \<and>
   evolve (+) demo_sim3 (1 / 32) =
     Some (Inr (demo_sim3\<lparr>patches :=
       [demo3_base\<lparr>data := \<lparr>shape0 = 1,
             cols = [[31 / 8], [7 / 8], [27 / 16], [61 / 8], [31 / 8], [7 / 8]]\<rparr>\<rparr>,
        demo3_mid\<lparr>data := \<lparr>shape0 = 1,
             cols = [[7], [3 / 2], [15 / 8], [89 / 8], [33 / 8], [9]]\<rparr>\<rparr>,
        demo3_fine\<lparr>data := \<lparr>shape0 = 1,
             cols = [[1], [5 / 4], [5 / 2], [5], [69 / 4], [3]]\<rparr>\<rparr>]\<rparr>)) \<and>
   schedule_pass (1 / 32) [[0], [1], [2]] demo_store3 \<noteq>
     bindE (foldE (\<lambda>p s'. euler_step s' p (1 / 32)) (concat [[0], [1], [2]]) demo_store3)
       (foldE (\<lambda>p s'. restrict_interior s' p) (concat [[0], [1], [2]]))"
proof -
  note inst = evolve_schedule [where sim = demo_sim3 and t_end = "1 / 32"
      and lvs = "[[0], [1], [2]]" and dt = "1 / 32" and t = 0 and s = demo_store3
      and fadd = "(+)" and n = 1]
  have h: "levels demo_sim3 \<noteq> [] \<and> last (levels demo_sim3) \<noteq> []"
    by (simp add: demo_sim3_def)
  have dt: "0.5 * dx (patches demo_sim3 ! hd (last (levels demo_sim3))) = 1 / 32"
    by (simp add: demo_sim3_def demo_store3_def demo3_fine_def)
  have a: "evolve (+) demo_sim3 (1 / 32) =
      map_option (map_sum id (\<lambda>s. demo_sim3\<lparr>patches := s\<rparr>))
        (evolve_loop (+) [[0], [1], [2]] (1 / 32) (1 / 32) 0 demo_store3)"
    using inst [THEN conjunct2, THEN conjunct1, rule_format, OF h] unfolding dt
    by (simp add: demo_sim3_def)
  have n: "(\<forall>k<1. loop_time (+) (1 / 32) 0 k < 1 / 32) \<and> \<not> loop_time (+) (1 / 32) 0 1 < 1 / 32"
    by simp
  have c: "evolve_loop (+) [[0], [1], [2]] (1 / 32) (1 / 32) 0 demo_store3 =
      Some (schedule_pass (1 / 32) [[0], [1], [2]] demo_store3)"
    using inst [THEN conjunct2, THEN conjunct2, THEN conjunct2, rule_format, OF n]
    by (cases "schedule_pass (1 / 32) [[0], [1], [2]] demo_store3") simp_all
  have d: "schedule_pass (1 / 32) [[0], [1], [2]] demo_store3 \<noteq>
     bindE (foldE (\<lambda>p s'. euler_step s' p (1 / 32)) (concat [[0], [1], [2]]) demo_store3)
       (foldE (\<lambda>p s'. restrict_interior s' p) (concat [[0], [1], [2]]))"
    unfolding demo_pass3 demo_coarse_first3 by (simp add: demo3_base_def)
  have n0: "loop_time (+) (1 / 32) 0 0 < (1 / 32 :: real)" by simp
  show ?thesis
    using h n n0 d unfolding a c demo_pass3 by simp
qed

text \<open>
  C2 does not hold for every hierarchy: \<open>mr_simulation(advection, 0.25, 8, 2, [], 4)\<close>
  constructs a hierarchy whose finest level is empty, and on it \<open>evolve\<close> raises
  IndexError at \<open>self.levels[-1][0]\<close> before it has a time step.
\<close>

theorem evolve_empty_level_counterexample:
  "mr_init advection (1 / 4) 8 2 [] 4 = Inr demo_empty \<and>
   levels demo_empty = [[0], []] \<and>
   evolve (+) demo_empty 1 = Some (Inl IndexError)"
  using demo_mr_init_empty by (simp add: demo_empty_def evolve_def)

section \<open>The refinement fill with two ghost cells\<close>

text \<open>
  What \<open>bcs_mr\<close> computes for \<open>ngz = 2\<close> (one ghost pair each side), with the parent
  columns it reads in range: the left pair is interpolated from the parent columns
  \<open>i_s - 2, i_s - 1, i_s\<close> around the left edge, the right pair from the parent columns
  \<open>i_s + 1, i_s + 2, i_s + 3\<close>, whatever \<open>nx\<close> is, because \<open>i_e\<close> is
  \<open>i_s + ngz // 2\<close>.
\<close>

lemma bindE_foldE_Nil [simp]: "bindE m (foldE f []) = m"
  by (cases m) simp_all

lemma setcol_index:
  "py_index (shape1 a) k = Inr j \<Longrightarrow> length v = shape0 a \<Longrightarrow>
     setcol a k v = Inr (a\<lparr>cols := (cols a)[j := v]\<rparr>)"
  by (simp add: setcol_def)

lemma length_mr_value:
  "length a = n \<Longrightarrow> length b = n \<Longrightarrow> length (smul c (vadd (smul wa a) (smul wb b))) = n"
  by (simp add: smul_def vadd_def)

lemma mr_assign_in_range:
  assumes par: "parent (s ! self) = Some q" "q < length s"
    and ka: "0 \<le> ka" "ka < int (shape1 (data (s ! q)))"
    and kb: "0 \<le> kb" "kb < int (shape1 (data (s ! q)))"
    and k: "py_index (shape1 (data (s ! self))) k = Inr j"
    and len: "length (cols (data (s ! q)) ! nat ka) = shape0 (data (s ! self))"
      "length (cols (data (s ! q)) ! nat kb) = shape0 (data (s ! self))"
  shows "mr_assign self k wa ka wb kb s =
     Inr (set_data s self ((data (s ! self))
       \<lparr>cols := (cols (data (s ! self)))
          [j := smul 0.25 (vadd (smul wa (cols (data (s ! q)) ! nat ka))
                                (smul wb (cols (data (s ! q)) ! nat kb)))]\<rparr>))"
proof -
  have pd: "parent_data s self = Inr (data (s ! q))"
    using par by (simp add: parent_data_def)
  have "length (smul 0.25 (vadd (smul wa (cols (data (s ! q)) ! nat ka))
                                (smul wb (cols (data (s ! q)) ! nat kb)))) =
      shape0 (data (s ! self))"
    using len by (rule length_mr_value)
  note sc = setcol_index [OF k this]
  show ?thesis
    unfolding mr_assign_def pd
    by (simp only: bindE_Inr getcol_in_range [OF ka] getcol_in_range [OF kb] sc)
qed

lemma mr_assign_on:
  assumes self: "self < length s" and q: "q < length s" "q \<noteq> self"
    and par: "parent (s ! self) = Some q"
    and ka: "0 \<le> ka" "ka < int (shape1 (data (s ! q)))"
    and kb: "0 \<le> kb" "kb < int (shape1 (data (s ! q)))"
    and k: "py_index (shape1 d) k = Inr j"
    and len: "length (cols (data (s ! q)) ! nat ka) = shape0 d"
      "length (cols (data (s ! q)) ! nat kb) = shape0 d"
  shows "mr_assign self k wa ka wb kb (set_data s self d) =
     Inr (set_data s self (d
       \<lparr>cols := (cols d)
          [j := smul 0.25 (vadd (smul wa (cols (data (s ! q)) ! nat ka))
                                (smul wb (cols (data (s ! q)) ! nat kb)))]\<rparr>))"
proof -
  let ?s = "set_data s self d"
  have 1: "?s ! self = (s ! self)\<lparr>data := d\<rparr>" "?s ! q = s ! q"
    using self q by (simp_all add: set_data_nth)
  have "mr_assign self k wa ka wb kb ?s =
     Inr (set_data ?s self ((data (?s ! self))
       \<lparr>cols := (cols (data (?s ! self)))
          [j := smul 0.25 (vadd (smul wa (cols (data (?s ! q)) ! nat ka))
                                (smul wb (cols (data (?s ! q)) ! nat kb)))]\<rparr>))"
    by (rule mr_assign_in_range) (use assms in \<open>simp_all add: 1\<close>)
  then show ?thesis by (simp add: 1)
qed

lemma bcs_mr_two_ghosts:
  fixes s :: store and i_s :: int
  assumes self: "self < length s" and q: "q < length s" "q \<noteq> self"
    and par: "parent (s ! self) = Some q" "parent_i_start (s ! self) = Some i_s"
    and g: "ngz (s ! self) = 2" and ok: "patch_ok (s ! self)" "0 \<le> nx (s ! self)"
    and pok: "has_shape (data (s ! q)) (nv (problem (s ! self))) wp"
    and rng: "2 \<le> i_s" "i_s + 3 < wp"
  shows "bcs_mr s self =
     Inr (set_data s self ((data (s ! self))
       \<lparr>cols := (cols (data (s ! self)))
          [0 := smul 0.25 (vadd (smul 1 (cols (data (s ! q)) ! nat (i_s - 2)))
                                (smul 3 (cols (data (s ! q)) ! nat (i_s - 1)))),
           1 := smul 0.25 (vadd (smul 3 (cols (data (s ! q)) ! nat (i_s - 1)))
                                (smul 1 (cols (data (s ! q)) ! nat i_s))),
           nat (nx (s ! self)) + 3 :=
                smul 0.25 (vadd (smul 3 (cols (data (s ! q)) ! nat (i_s + 2)))
                                (smul 1 (cols (data (s ! q)) ! nat (i_s + 3)))),
           nat (nx (s ! self)) + 2 :=
                smul 0.25 (vadd (smul 1 (cols (data (s ! q)) ! nat (i_s + 1)))
                                (smul 3 (cols (data (s ! q)) ! nat (i_s + 2))))]\<rparr>))"
proof -
  let ?d = "data (s ! self)" and ?P = "cols (data (s ! q))"
  define m where "m = nat (nx (s ! self))"
  have wi: "int (shape1 ?d) = nx (s ! self) + 4" and n: "int (shape0 ?d) = nv (problem (s ! self))"
    using ok g by (simp_all add: patch_ok_def has_shape_def)
  have w: "shape1 ?d = m + 4"
    using wi ok(2) unfolding m_def by linarith
  have wp: "int (shape1 (data (s ! q))) = wp" and np: "shape0 (data (s ! q)) = shape0 ?d"
    and wfp: "\<forall>c\<in>set ?P. length c = shape0 ?d"
    using pok n by (simp_all add: has_shape_def list_all_iff)
  have lenP: "length (?P ! nat k) = shape0 ?d" if "0 \<le> k" "k < wp" for k
    using that wfp wp by (simp add: shape1_def)
  have idx: "py_index (m + 4) 0 = Inr 0" "py_index (m + 4) 1 = Inr 1"
    "py_index (m + 4) (- 1) = Inr (m + 3)" "py_index (m + 4) (- 2) = Inr (m + 2)"
    by (simp_all add: py_index_def nat_add_distrib)
  let ?L0 = "smul 0.25 (vadd (smul 1 (?P ! nat (i_s - 2))) (smul 3 (?P ! nat (i_s - 1))))"
  let ?L1 = "smul 0.25 (vadd (smul 3 (?P ! nat (i_s - 1))) (smul 1 (?P ! nat i_s)))"
  let ?R1 = "smul 0.25 (vadd (smul 3 (?P ! nat (i_s + 2))) (smul 1 (?P ! nat (i_s + 3))))"
  let ?R0 = "smul 0.25 (vadd (smul 1 (?P ! nat (i_s + 1))) (smul 3 (?P ! nat (i_s + 2))))"
  let ?d1 = "?d\<lparr>cols := (cols ?d)[0 := ?L0]\<rparr>"
  let ?d2 = "?d1\<lparr>cols := (cols ?d1)[1 := ?L1]\<rparr>"
  let ?R1' = "smul 0.25 (vadd (smul 3 (?P ! nat (i_s + 1 + 1))) (smul 1 (?P ! nat (i_s + 1 + 2))))"
  let ?R0' = "smul 0.25 (vadd (smul 1 (?P ! nat (i_s + 1))) (smul 3 (?P ! nat (i_s + 1 + 1))))"
  let ?d3 = "?d2\<lparr>cols := (cols ?d2)[m + 3 := ?R1']\<rparr>"
  let ?d4 = "?d3\<lparr>cols := (cols ?d3)[m + 2 := ?R0']\<rparr>"
  have step: "mr_assign self k wa ka wb kb (set_data s self d) =
      Inr (set_data s self (d\<lparr>cols := (cols d)
          [j := smul 0.25 (vadd (smul wa (?P ! nat ka)) (smul wb (?P ! nat kb)))]\<rparr>))"
    if "0 \<le> ka" "ka < wp" "0 \<le> kb" "kb < wp" "py_index (m + 4) k = Inr j"
      "shape1 d = m + 4" "shape0 d = shape0 ?d" for k wa ka wb kb d j
    using self q par(1)
  proof (rule mr_assign_on)
    show "0 \<le> ka" "0 \<le> kb" by fact+
    show "ka < int (shape1 (data (s ! q)))" "kb < int (shape1 (data (s ! q)))"
      using that wp by simp_all
    show "py_index (shape1 d) k = Inr j" using that by simp
    show "length (?P ! nat ka) = shape0 d" "length (?P ! nat kb) = shape0 d"
      using that lenP by simp_all
  qed
  have s0: "set_data s self ?d = s" by (simp add: set_data_def)
  have wd: "length (cols ?d) = m + 4" using w by (simp add: shape1_def)
  have "mr_assign self (2 * 0) 1 (i_s - 2) 3 (i_s - 1) (set_data s self ?d) =
      Inr (set_data s self ?d1)"
    by (rule step) (use rng idx w in simp_all)
  then have a1: "mr_assign self (2 * 0) 1 (i_s - 2) 3 (i_s - 1) s = Inr (set_data s self ?d1)"
    by (simp only: s0)
  have a2: "mr_assign self (2 * 0 + 1) 3 (i_s - 1) 1 i_s (set_data s self ?d1) =
      Inr (set_data s self ?d2)"
    by (rule step) (use rng idx wd in \<open>simp_all add: shape1_def\<close>)
  have a3: "mr_assign self (- 2 * 0 - 1) 3 (i_s + 1 + 1) 1 (i_s + 1 + 2) (set_data s self ?d2) =
      Inr (set_data s self ?d3)"
    by (rule step) (use rng idx wd in \<open>simp_all add: shape1_def\<close>)
  have a4: "mr_assign self (- 2 * 0 - 2) 1 (i_s + 1) 3 (i_s + 1 + 1) (set_data s self ?d3) =
      Inr (set_data s self ?d4)"
    by (rule step) (use rng idx wd in \<open>simp_all add: shape1_def\<close>)
  have body: "bcs_mr_body self i_s (i_s + 1) 0 s = Inr (set_data s self ?d4)"
    unfolding bcs_mr_body_def by (simp only: a1 a2 a3 a4 bindE_Inr)
  have "bcs_mr s self = bcs_mr_body self i_s (i_s + 1) 0 s"
    using par(2) g by (simp add: bcs_mr_def Let_def)
  moreover have "i_s + 1 + 1 = i_s + 2" "i_s + 1 + 2 = i_s + 3" by simp_all
  ultimately show ?thesis using body by (simp add: m_def)
qed

text \<open>
  C1: on the test pair (parent profile \<open>data[0, k] = k\<close>, child over the parent columns
  4 to 7 with \<open>ngz = 2\<close>) the left ghost pair receives \<open>11/4\<close> and \<open>13/4\<close>, the
  combinations with weights 1/4 and 3/4 of the parent columns 2, 3, 4 that straddle the
  left edge. The right ghost pair receives \<open>23/4\<close> and \<open>25/4\<close>, the combinations of the
  parent columns 5, 6, 7, which lie inside the child; the parent columns that straddle
  the right edge are 7 and 8 (then 9), whose combinations are \<open>31/4\<close> and \<open>33/4\<close>.
\<close>

theorem bcs_mr_right_edge_divergence:
  "bcs_mr demo_store 1 =
     Inr [demo_parent,
          demo_child\<lparr>data := \<lparr>shape0 = 1,
             cols = [[11 / 4], [13 / 4], [4], [6], [5], [5], [6], [8], [7], [9], [23 / 4], [25 / 4]]\<rparr>\<rparr>] \<and>
   smul 0.25 (vadd (cols (data demo_parent) ! 2) (smul 3 (cols (data demo_parent) ! 3))) = [11 / 4] \<and>
   smul 0.25 (vadd (smul 3 (cols (data demo_parent) ! 3)) (cols (data demo_parent) ! 4)) = [13 / 4] \<and>
   smul 0.25 (vadd (cols (data demo_parent) ! 5) (smul 3 (cols (data demo_parent) ! 6))) = [23 / 4] \<and>
   smul 0.25 (vadd (smul 3 (cols (data demo_parent) ! 6)) (cols (data demo_parent) ! 7)) = [25 / 4] \<and>
   smul 0.25 (vadd (cols (data demo_parent) ! 7) (smul 3 (cols (data demo_parent) ! 8))) = [31 / 4] \<and>
   smul 0.25 (vadd (smul 3 (cols (data demo_parent) ! 8)) (cols (data demo_parent) ! 9)) = [33 / 4]"
  using demo_bcs_mr by (simp add: demo_parent_def smul_def vadd_def)

section \<open>Geometry of the hierarchies that the constructor builds\<close>

text \<open>
  In every hierarchy that \<open>mr_simulation\<close> has built, a patch on a level above 0 has its
  parent on the level below and half the parent's spacing.
\<close>

lemma mr_init_spacing:
  assumes "mr_init pr base_dx base_nx nlevels x_centres child_nx = Inr sim"
    and "0 < i" "i < length (levels sim)" "c \<in> set (levels sim ! i)"
  shows "\<exists>q\<in>set (levels sim ! (i - 1)).
      parent (patches sim ! c) = Some q \<and> dx (patches sim ! c) = dx (patches sim ! q) / 2"
proof -
  from mr_init_inv(1) [OF assms(1)]
  have inv: "hier_inv base_dx child_nx (patches sim) (levels sim)" .
  with assms obtain q where q: "q \<in> set (levels sim ! (i - 1))" "parent (patches sim ! c) = Some q"
    and c: "dx (patches sim ! c) = base_dx / 2 ^ i"
    unfolding hier_inv_def by fastforce
  from assms(2,3) have "i - 1 < length (levels sim)" by simp
  with inv q(1) have "dx (patches sim ! q) = base_dx / 2 ^ (i - 1)"
    unfolding hier_inv_def by blast
  moreover from assms(2) have "(2::real) ^ i = 2 * 2 ^ (i - 1)"
    by (cases i) simp_all
  ultimately have "dx (patches sim ! c) = dx (patches sim ! q) / 2"
    using c by simp
  with q show ?thesis by blast
qed

text \<open>
  With two refinement centres the constructor raises: level 0 holds one patch, so
  \<open>levels[0][1]\<close> does not exist.
\<close>

lemma demo_two_centres:
  "mr_init advection (1 / 4) 8 2 [3 / 2, 1 / 2] 4 = Inl IndexError"
  by (simp add: mr_init_def patch_init_def zeros_def build_level_def build_patch_def
      advection_def enumerate_eq_zip upt_conv_Cons)

text \<open>
  C7: for base spacing 1/4, 8 base cells, 2 levels, one centre at 3/2 and 4 child cells
  the constructor returns a child on level 1 whose parent is the base patch and whose
  spacing is half the parent's, with left edge 5/4 and \<open>parent_i_start = 2\<close>; the left
  face of the parent's buffer cell 2 is at \<open>0 + (2 - 1) * 1/4 = 1/4\<close>, not at 5/4.
\<close>

theorem mr_init_offset_divergence:
  "mr_init advection (1 / 4) 8 2 [3 / 2] 4 = Inr demo_built \<and>
   levels demo_built = [[0], [1]] \<and>
   parent (patches demo_built ! 1) = Some 0 \<and> parent_i_start (patches demo_built ! 1) = Some 2 \<and>
   dx (patches demo_built ! 1) = dx (patches demo_built ! 0) / 2 \<and>
   x0 (patches demo_built ! 1) = 5 / 4 \<and>
   x0 (patches demo_built ! 0) +
     real_of_int (2 - ngz (patches demo_built ! 0)) * dx (patches demo_built ! 0) = 1 / 4"
  using demo_mr_init by (simp add: demo_built_def)

end
